theory Spec2Isabelle
  imports Complex_Main
begin

section \<open>Python primitives used by the calculator\<close>

text \<open>
  The calculation engine is the class \<open>ProfessionalAstrologicalCalculator\<close> of
  \<open>astro_calculator.py\<close>. Python's \<open>float\<close> is modelled by \<open>real\<close> (the data model
  of the specification takes a Julian Day to be a real number), Python's unbounded \<open>int\<close>
  by \<open>int\<close>. The functions of the first sections compute in the exact arithmetic the
  formulas denote; the rounding of IEEE doubles is the subject of the section on double
  precision, where the functions whose properties depend on it are given a second time.
\<close>

datatype py_error = IndexError | KeyError

text \<open>\<open>x % m\<close> on floats: the remainder of the floored quotient (it has the sign of \<open>m\<close>).
  Every divisor in the source is a non-zero constant.\<close>

definition py_mod :: "real \<Rightarrow> real \<Rightarrow> real" where
  "py_mod x m = x - m * real_of_int \<lfloor>x / m\<rfloor>"

text \<open>\<open>x // m\<close> on floats: the floored quotient, still a float.\<close>

definition py_floordiv :: "real \<Rightarrow> real \<Rightarrow> real" where
  "py_floordiv x m = real_of_int \<lfloor>x / m\<rfloor>"

text \<open>\<open>int(x)\<close> on a float truncates towards zero.\<close>

definition py_int :: "real \<Rightarrow> int" where
  "py_int x = (if 0 \<le> x then \<lfloor>x\<rfloor> else \<lceil>x\<rceil>)"

text \<open>\<open>math.radians\<close>, \<open>math.degrees\<close> and \<open>math.atan2\<close> (the angle of the point
  \<open>(x, y)\<close> in \<open>(-pi, pi]\<close>, and \<open>0\<close> at the origin).\<close>

definition radians :: "real \<Rightarrow> real" where
  "radians d = d * pi / 180"

definition degrees :: "real \<Rightarrow> real" where
  "degrees r = r * 180 / pi"

definition atan2 :: "real \<Rightarrow> real \<Rightarrow> real" where
  "atan2 y x =
     (if 0 < x then arctan (y / x)
      else if x < 0 then (if 0 \<le> y then arctan (y / x) + pi else arctan (y / x) - pi)
      else if 0 < y then pi / 2
      else if y < 0 then - (pi / 2)
      else 0)"

text \<open>\<open>xs[i]\<close> on a list: a negative index counts from the end, anything outside
  raises \<open>IndexError\<close>.\<close>

definition subscript :: "'a list \<Rightarrow> int \<Rightarrow> py_error + 'a" where
  "subscript xs i =
     (if 0 \<le> i \<and> i < int (length xs) then Inr (xs ! nat i)
      else if i < 0 \<and> - int (length xs) \<le> i then Inr (xs ! nat (int (length xs) + i))
      else Inl IndexError)"

subsection \<open>Naive datetimes\<close>

text \<open>A \<open>datetime\<close> without time zone; dropping \<open>tzinfo\<close> with \<open>replace(tzinfo=None)\<close>
  leaves these fields as they are.\<close>

record datetime =
  dt_year :: int
  dt_month :: int
  dt_day :: int
  dt_hour :: int
  dt_minute :: int
  dt_second :: int
  dt_microsecond :: int

definition is_leap :: "int \<Rightarrow> bool" where
  "is_leap y = (y mod 4 = 0 \<and> (y mod 100 \<noteq> 0 \<or> y mod 400 = 0))"

definition days_in_month :: "int \<Rightarrow> int \<Rightarrow> int" where
  "days_in_month y m =
     (if m = 2 then (if is_leap y then 29 else 28)
      else if m = 4 \<or> m = 6 \<or> m = 9 \<or> m = 11 then 30 else 31)"

text \<open>What the constructor of \<open>datetime\<close> accepts.\<close>

definition valid_datetime :: "datetime \<Rightarrow> bool" where
  "valid_datetime d =
     (1 \<le> dt_year d \<and> dt_year d \<le> 9999 \<and> 1 \<le> dt_month d \<and> dt_month d \<le> 12
      \<and> 1 \<le> dt_day d \<and> dt_day d \<le> days_in_month (dt_year d) (dt_month d)
      \<and> 0 \<le> dt_hour d \<and> dt_hour d < 24 \<and> 0 \<le> dt_minute d \<and> dt_minute d < 60
      \<and> 0 \<le> dt_second d \<and> dt_second d < 60
      \<and> 0 \<le> dt_microsecond d \<and> dt_microsecond d < 1000000)"

definition days_before_year :: "int \<Rightarrow> int" where
  "days_before_year y = (y - 1) * 365 + (y - 1) div 4 - (y - 1) div 100 + (y - 1) div 400"

definition days_before_month :: "int \<Rightarrow> int \<Rightarrow> int" where
  "days_before_month y m =
     [-1, 0, 31, 59, 90, 120, 151, 181, 212, 243, 273, 304, 334] ! nat m
       + (if 2 < m \<and> is_leap y then 1 else 0)"

text \<open>The proleptic Gregorian ordinal of the date (1 for 0001-01-01).\<close>

definition toordinal :: "datetime \<Rightarrow> int" where
  "toordinal d = days_before_year (dt_year d) + days_before_month (dt_year d) (dt_month d) + dt_day d"

definition microseconds_of_day :: "datetime \<Rightarrow> int" where
  "microseconds_of_day d =
     ((dt_hour d * 60 + dt_minute d) * 60 + dt_second d) * 1000000 + dt_microsecond d"

text \<open>\<open>(a - b).days\<close>: a \<open>timedelta\<close> is normalised so that its seconds and
  microseconds are not negative, hence the floored quotient.\<close>

definition timedelta_days :: "datetime \<Rightarrow> datetime \<Rightarrow> int" where
  "timedelta_days a b =
     ((toordinal a - toordinal b) * 86400000000
        + (microseconds_of_day a - microseconds_of_day b)) div 86400000000"

section \<open>The static tables\<close>


definition heavenly_stems :: "(string \<times> string) list" where
  "heavenly_stems =
    [(''Jia'', ''Yang Wood''), (''Yi'', ''Yin Wood''),
     (''Bing'', ''Yang Fire''), (''Ding'', ''Yin Fire''),
     (''Wu'', ''Yang Earth''), (''Ji'', ''Yin Earth''),
     (''Geng'', ''Yang Metal''), (''Xin'', ''Yin Metal''),
     (''Ren'', ''Yang Water''), (''Gui'', ''Yin Water'')]"

definition earthly_branches :: "(string \<times> string) list" where
  "earthly_branches =
    [(''Zi'', ''Rat''), (''Chou'', ''Ox''), (''Yin'', ''Tiger''), (''Mao'', ''Rabbit''),
     (''Chen'', ''Dragon''), (''Si'', ''Snake''), (''Wu'', ''Horse''), (''Wei'', ''Goat''),
     (''Shen'', ''Monkey''), (''You'', ''Rooster''), (''Xu'', ''Dog''), (''Hai'', ''Pig'')]"

definition mayan_day_signs :: "(string \<times> string \<times> string) list" where
  "mayan_day_signs =
    [(''Imix'', ''Crocodile'', ''Primordial energy''),
     (''Ik'', ''Wind'', ''Spirit, breath''),
     (''Akbal'', ''Night'', ''Inner temple''),
     (''Kan'', ''Seed'', ''Growth potential''),
     (''Chicchan'', ''Serpent'', ''Life force''),
     (''Cimi'', ''Death'', ''Transformation''),
     (''Manik'', ''Deer'', ''Healing hands''),
     (''Lamat'', ''Rabbit'', ''Star seed''),
     (''Muluc'', ''Water'', ''Offering''),
     (''Oc'', ''Dog'', ''Loyalty, guidance''),
     (''Chuen'', ''Monkey'', ''Artistry''),
     (''Eb'', ''Grass'', ''Human experience''),
     (''Ben'', ''Reed'', ''Flowing waters''),
     (''Ix'', ''Jaguar'', ''Magical powers''),
     (''Men'', ''Eagle'', ''Planetary mind''),
     (''Cib'', ''Owl'', ''Ancient wisdom''),
     (''Caban'', ''Earth'', ''Sacred knowledge''),
     (''Etznab'', ''Flint'', ''Mirror of truth''),
     (''Cauac'', ''Storm'', ''Catalytic energy''),
     (''Ahau'', ''Sun'', ''Enlightenment'')]"

section \<open>Julian Day and ayanamsa\<close>

text \<open>\<open>calculate_julian_day\<close>: January and February count as months 13 and 14 of the
  year before. \<open>year1\<close> and \<open>month1\<close> are \<open>year\<close> and \<open>month\<close> after the adjustment.\<close>

definition calculate_julian_day :: "int \<Rightarrow> int \<Rightarrow> int \<Rightarrow> int \<Rightarrow> int \<Rightarrow> real" where
  "calculate_julian_day year month day hour minute =
     (let year1 = (if month \<le> 2 then year - 1 else year);
          month1 = (if month \<le> 2 then month + 12 else month);
          a = \<lfloor>real_of_int year1 / 100\<rfloor>;
          b = 2 - a + \<lfloor>real_of_int a / 4\<rfloor>;
          jd = real_of_int \<lfloor>365.25 * real_of_int (year1 + 4716)\<rfloor>
                 + real_of_int \<lfloor>30.6001 * real_of_int (month1 + 1)\<rfloor>
                 + real_of_int day + real_of_int b - 1524.5
                 + (real_of_int hour + real_of_int minute / 60) / 24
      in jd)"

definition calculate_lahiri_ayanamsa :: "real \<Rightarrow> real" where
  "calculate_lahiri_ayanamsa jd =
     (let t = (jd - 2451545.0) / 36525;
          ayanamsa = 23.85 + 50.29 * t / 3600 - 0.000279 * t * t
      in ayanamsa)"

section \<open>Planetary positions\<close>

text \<open>\<open>calculate_planetary_positions\<close>: the dictionary of tropical longitudes, keyed by
  the body's name. \<open>sun_c\<close> and \<open>moon_longitude\<close> are built up by \<open>+=\<close> and \<open>-=\<close> in the
  source; the sums below are those of the successive assignments.\<close>

definition calculate_planetary_positions :: "real \<Rightarrow> (string \<rightharpoonup> real)" where
  "calculate_planetary_positions jd =
     (let t = (jd - 2451545.0) / 36525;
          sun_l = 280.4664567 + 360007.6982779 * t + 0.03032028 * t * t;
          sun_m = 357.52772333 + 35999.05034 * t - 0.0001603 * t * t - t * t * t / 300000;
          sun_c = (1.914602 - 0.004817 * t - 0.000014 * t * t) * sin (radians sun_m)
                    + (0.019993 - 0.000101 * t) * sin (radians (2 * sun_m))
                    + 0.000289 * sin (radians (3 * sun_m));
          moon_l = 218.3164477 + 481267.88123421 * t - 0.0015786 * t * t;
          moon_d = 297.8501921 + 445267.1114034 * t - 0.0018819 * t * t;
          moon_m = 134.9633964 + 477198.8675055 * t + 0.0087414 * t * t;
          moon_f = 93.272095 + 483202.0175233 * t - 0.0036539 * t * t;
          moon_longitude = moon_l + 6.288774 * sin (radians moon_m)
                    + 1.274027 * sin (radians (2 * moon_d - moon_m))
                    + 0.658314 * sin (radians (2 * moon_d))
                    + 0.213618 * sin (radians (2 * moon_m))
                    - 0.185116 * sin (radians sun_m);
          mercury_l = 252.250906 + 149472.67411175 * t + 0.00030397 * t * t;
          mercury_m = 174.7948 + 4092.677 * t;
          mercury_c = 23.4400 * sin (radians mercury_m);
          venus_l = 181.979801 + 58517.81539 * t + 0.00165 * t * t;
          venus_m = 50.4161 + 1602.961 * t;
          venus_c = 0.7758 * sin (radians venus_m);
          mars_l = 355.433 + 19140.2993313 * t + 0.00026 * t * t;
          mars_m = 19.373 + 686.996 * t;
          mars_c = 10.691 * sin (radians mars_m);
          jupiter_l = 34.351484 + 3034.90567464 * t - 0.00008501 * t * t;
          jupiter_m = 20.020 + 83.298 * t;
          jupiter_c = 5.555 * sin (radians jupiter_m);
          saturn_l = 50.077471 + 1222.11379404 * t + 0.00021004 * t * t;
          saturn_m = 317.020 + 34.266 * t;
          saturn_c = 5.629 * sin (radians saturn_m)
      in [''Sun'' \<mapsto> py_mod (sun_l + sun_c) 360,
          ''Moon'' \<mapsto> py_mod moon_longitude 360,
          ''Mercury'' \<mapsto> py_mod (mercury_l + mercury_c) 360,
          ''Venus'' \<mapsto> py_mod (venus_l + venus_c) 360,
          ''Mars'' \<mapsto> py_mod (mars_l + mars_c) 360,
          ''Jupiter'' \<mapsto> py_mod (jupiter_l + jupiter_c) 360,
          ''Saturn'' \<mapsto> py_mod (saturn_l + saturn_c) 360])"

text \<open>\<open>calculate_vedic_positions\<close>: every entry of the given dictionary, less the
  ayanamsa, modulo 360; the ayanamsa is returned with it.\<close>

definition calculate_vedic_positions :: "(string \<rightharpoonup> real) \<Rightarrow> real \<Rightarrow> (string \<rightharpoonup> real) \<times> real" where
  "calculate_vedic_positions tropical_positions jd =
     (let ayanamsa = calculate_lahiri_ayanamsa jd;
          vedic_positions =
            (\<lambda>planet. case tropical_positions planet of
                         None \<Rightarrow> None
                       | Some position \<Rightarrow> Some (py_mod (position - ayanamsa) 360))
      in (vedic_positions, ayanamsa))"

section \<open>Houses\<close>

text \<open>The Ascendant and the Midheaven (\<open>ascendant\<close> and \<open>mc\<close> of \<open>calculate_houses\<close>).
  At a latitude of 90 degrees north or south the tangent of the source is a very large
  float, where \<open>tan\<close> is 0 here; nothing below depends on the value of the Ascendant
  there, only on its lying in [0, 360).\<close>

definition local_sidereal_time :: "real \<Rightarrow> real \<Rightarrow> real" where
  "local_sidereal_time jd longitude =
     (let gst = 280.46061837 + 360.98564736629 * (jd - 2451545.0);
          lst = py_mod (gst + longitude) 360
      in lst)"

definition houses_ascendant :: "real \<Rightarrow> real \<Rightarrow> real \<Rightarrow> real" where
  "houses_ascendant jd latitude longitude =
     (let t = (jd - 2451545.0) / 36525;
          lst = local_sidereal_time jd longitude;
          obliquity = 23.4392911 - 0.0130125 * t - 0.00000164 * t * t;
          lat_rad = radians latitude;
          lst_rad = radians lst;
          obl_rad = radians obliquity;
          y = cos lst_rad;
          x = - sin lst_rad * cos obl_rad - tan lat_rad * sin obl_rad;
          ascendant = py_mod (degrees (atan2 y x)) 360
      in ascendant)"

definition houses_mc :: "real \<Rightarrow> real \<Rightarrow> real" where
  "houses_mc jd longitude = py_mod (local_sidereal_time jd longitude) 360"

text \<open>The first loop of the quadrant branch, \<open>for i in range(2, 7)\<close>; both arms of its
  \<open>if i <= 3\<close> hold the same two statements.\<close>

fun intermediate_houses :: "real \<Rightarrow> int list \<Rightarrow> (int \<rightharpoonup> real) \<Rightarrow> (int \<rightharpoonup> real)" where
  "intermediate_houses ascendant [] houses = houses"
| "intermediate_houses ascendant (i # rest) houses =
     (if i \<le> 3
      then intermediate_houses ascendant rest
             (houses(i \<mapsto> py_mod (ascendant + real_of_int ((i - 1) * 30)) 360))
      else intermediate_houses ascendant rest
             (houses(i \<mapsto> py_mod (ascendant + real_of_int ((i - 1) * 30)) 360)))"

text \<open>The second loop, \<open>for i in range(8, 13)\<close>: it reads \<open>houses[str(i - 6)]\<close>, which
  raises \<open>KeyError\<close> when that cusp is not there yet.\<close>

fun complete_wheel :: "int list \<Rightarrow> (int \<rightharpoonup> real) \<Rightarrow> py_error + (int \<rightharpoonup> real)" where
  "complete_wheel [] houses = Inr houses"
| "complete_wheel (i # rest) houses =
     (case houses (i - 6) of
        None \<Rightarrow> Inl KeyError
      | Some opposite \<Rightarrow>
          complete_wheel rest
            (houses((if i mod 12 \<noteq> 0 then i mod 12 else 12) \<mapsto> py_mod (opposite + 180) 360)))"

text \<open>The loops of the Whole Sign and of the Equal branch, \<open>for i in range(1, 13)\<close>.\<close>

fun whole_sign_houses :: "int \<Rightarrow> int list \<Rightarrow> (int \<rightharpoonup> real) \<Rightarrow> (int \<rightharpoonup> real)" where
  "whole_sign_houses asc_sign [] houses = houses"
| "whole_sign_houses asc_sign (i # rest) houses =
     whole_sign_houses asc_sign rest
       (houses(i \<mapsto> real_of_int ((asc_sign * 30 + (i - 1) * 30) mod 360)))"

fun equal_houses :: "real \<Rightarrow> int list \<Rightarrow> (int \<rightharpoonup> real) \<Rightarrow> (int \<rightharpoonup> real)" where
  "equal_houses ascendant [] houses = houses"
| "equal_houses ascendant (i # rest) houses =
     equal_houses ascendant rest
       (houses(i \<mapsto> py_mod (ascendant + real_of_int ((i - 1) * 30)) 360))"

text \<open>\<open>calculate_houses\<close>. The source keys the dictionary of cusps by \<open>str(i)\<close>; the
  model keys it by \<open>i\<close> itself, \<open>str\<close> being one-to-one on the integers.\<close>

definition calculate_houses :: "real \<Rightarrow> real \<Rightarrow> real \<Rightarrow> string \<Rightarrow> py_error + ((int \<rightharpoonup> real) \<times> real)" where
  "calculate_houses jd latitude longitude house_system =
     (let ascendant = houses_ascendant jd latitude longitude;
          mc = houses_mc jd longitude
      in if house_system = ''Whole Sign''
         then (let asc_sign = py_int (py_floordiv ascendant 30)
               in Inr (whole_sign_houses asc_sign [1..12] Map.empty, ascendant))
         else if house_system = ''Equal''
         then Inr (equal_houses ascendant [1..12] Map.empty, ascendant)
         else (let houses = [1 \<mapsto> ascendant,
                             4 \<mapsto> py_mod (mc + 180) 360,
                             7 \<mapsto> py_mod (ascendant + 180) 360,
                             10 \<mapsto> mc]
               in case complete_wheel [8..12] (intermediate_houses ascendant [2..6] houses) of
                    Inl e \<Rightarrow> Inl e
                  | Inr houses' \<Rightarrow> Inr (houses', ascendant)))"

text \<open>The cusps as the specification words them for the Equal system, which the claim
  about the quadrant family takes over: cusp \<open>n\<close> is the Ascendant plus 30 degrees times
  \<open>n - 1\<close>, modulo 360, for \<open>n\<close> from 1 to 12.\<close>

definition equal_cusps :: "real \<Rightarrow> (int \<rightharpoonup> real)" where
  "equal_cusps ascendant =
     (\<lambda>n. if 1 \<le> n \<and> n \<le> 12
          then Some (py_mod (ascendant + 30 * real_of_int (n - 1)) 360) else None)"

section \<open>Nakshatra\<close>






section \<open>Four Pillars\<close>

record four_pillars =
  fp_year :: "(string \<times> string) \<times> (string \<times> string)"
  fp_month :: "(string \<times> string) \<times> (string \<times> string)"
  fp_day :: "(string \<times> string) \<times> (string \<times> string)"
  fp_hour :: "(string \<times> string) \<times> (string \<times> string)"

text \<open>The local \<open>year\<close> of \<open>calculate_four_pillars\<close> after the Chinese New Year
  adjustment, and the local \<open>day_offset\<close>, which is computed from it.\<close>

definition four_pillars_year :: "datetime \<Rightarrow> int" where
  "four_pillars_year birth_datetime =
     (let year = dt_year birth_datetime;
          month = dt_month birth_datetime;
          day = dt_day birth_datetime;
          chinese_new_year_adjustment = 35
      in if month = 1 \<or> (month = 2 \<and> day < chinese_new_year_adjustment) then year - 1 else year)"

definition four_pillars_day_offset :: "datetime \<Rightarrow> int" where
  "four_pillars_day_offset birth_datetime =
     (let year = four_pillars_year birth_datetime;
          jd = calculate_julian_day year (dt_month birth_datetime) (dt_day birth_datetime) 0 0
      in py_int jd mod 60)"

definition pillar :: "int \<Rightarrow> int \<Rightarrow> py_error + ((string \<times> string) \<times> (string \<times> string))" where
  "pillar stem branch =
     (case subscript heavenly_stems stem of
        Inl e \<Rightarrow> Inl e
      | Inr s \<Rightarrow> (case subscript earthly_branches branch of
                    Inl e \<Rightarrow> Inl e
                  | Inr b \<Rightarrow> Inr (s, b)))"

definition calculate_four_pillars :: "datetime \<Rightarrow> py_error + four_pillars" where
  "calculate_four_pillars birth_datetime =
     (let year = four_pillars_year birth_datetime;
          month = dt_month birth_datetime;
          hour = dt_hour birth_datetime;
          year_stem = (year - 4) mod 10;
          year_branch = (year - 4) mod 12;
          month_stem = ((year mod 5) * 2 + month) mod 10;
          month_branch = (month + 1) mod 12;
          day_offset = four_pillars_day_offset birth_datetime;
          day_stem = day_offset mod 10;
          day_branch = day_offset mod 12;
          hour_branch = ((hour + 1) div 2) mod 12;
          hour_stem = (day_stem * 2 + hour_branch) mod 10
      in case pillar year_stem year_branch of
           Inl e \<Rightarrow> Inl e
         | Inr py \<Rightarrow>
        (case pillar month_stem month_branch of
           Inl e \<Rightarrow> Inl e
         | Inr pm \<Rightarrow>
        (case pillar day_stem day_branch of
           Inl e \<Rightarrow> Inl e
         | Inr pd \<Rightarrow>
        (case pillar hour_stem hour_branch of
           Inl e \<Rightarrow> Inl e
         | Inr ph \<Rightarrow> Inr \<lparr>fp_year = py, fp_month = pm, fp_day = pd, fp_hour = ph\<rparr>))))"

text \<open>The day pillar as the specification words it: from the Julian Day of the
  original, unadjusted date at 00:00.\<close>

definition spec_day_offset :: "datetime \<Rightarrow> int" where
  "spec_day_offset birth_datetime =
     \<lfloor>calculate_julian_day (dt_year birth_datetime) (dt_month birth_datetime)
        (dt_day birth_datetime) 0 0\<rfloor> mod 60"

definition spec_day_pillar :: "datetime \<Rightarrow> py_error + ((string \<times> string) \<times> (string \<times> string))" where
  "spec_day_pillar birth_datetime =
     pillar (spec_day_offset birth_datetime mod 10) (spec_day_offset birth_datetime mod 12)"

section \<open>Tzolkin\<close>

record tzolkin_reading =
  tz_kin :: int
  tz_day_sign :: string
  tz_glyph :: string
  tz_meaning :: string
  tz_galactic_tone :: int

definition epoch :: datetime where
  "epoch = \<lparr>dt_year = 1900, dt_month = 1, dt_day = 1, dt_hour = 0, dt_minute = 0,
            dt_second = 0, dt_microsecond = 0\<rparr>"

text \<open>The locals \<open>kin\<close> (counted from 0), \<open>day_sign_index\<close> and \<open>galactic_tone\<close> of
  \<open>calculate_mayan_tzolkin\<close>.\<close>

definition tzolkin_kin :: "datetime \<Rightarrow> int" where
  "tzolkin_kin birth_datetime =
     (let correlation_constant = 584283;
          days_since_epoch = timedelta_days birth_datetime epoch;
          total_days = days_since_epoch + correlation_constant
      in total_days mod 260)"

definition tzolkin_day_sign_index :: "datetime \<Rightarrow> int" where
  "tzolkin_day_sign_index birth_datetime = tzolkin_kin birth_datetime mod 20"

definition tzolkin_galactic_tone :: "datetime \<Rightarrow> int" where
  "tzolkin_galactic_tone birth_datetime = tzolkin_kin birth_datetime mod 13 + 1"

definition calculate_mayan_tzolkin :: "datetime \<Rightarrow> py_error + tzolkin_reading" where
  "calculate_mayan_tzolkin birth_datetime =
     (let kin = tzolkin_kin birth_datetime;
          day_sign_index = tzolkin_day_sign_index birth_datetime;
          galactic_tone = tzolkin_galactic_tone birth_datetime
      in case subscript mayan_day_signs day_sign_index of
           Inl e \<Rightarrow> Inl e
         | Inr day_sign_info \<Rightarrow>
             Inr \<lparr>tz_kin = kin + 1,
                  tz_day_sign = fst day_sign_info,
                  tz_glyph = fst (snd day_sign_info),
                  tz_meaning = snd (snd day_sign_info),
                  tz_galactic_tone = galactic_tone\<rparr>)"

section \<open>Double precision\<close>

text \<open>
  The functions above compute in exact arithmetic. Where a property hangs on the rounding
  of Python's floats, the function is given a second time here, in IEEE double precision:
  every literal and every arithmetic operation is rounded to the nearest number with a
  53-bit significand, ties going to the even one. The exponent range is not modelled
  (no overflow, no subnormal numbers); the values below stay far inside it.
\<close>

text \<open>The nearest integer, the even one of two that are equally near.\<close>

definition round_half_even :: "real \<Rightarrow> int" where
  "round_half_even x =
     (let f = \<lfloor>x\<rfloor>; d = x - real_of_int f
      in if d < 1 / 2 then f else if 1 / 2 < d then f + 1 else if even f then f else f + 1)"

text \<open>The exponent \<open>e\<close> with \<open>2 ^ e \<le> |x| < 2 ^ (e + 1)\<close>.\<close>

definition binade :: "real \<Rightarrow> int" where
  "binade x = \<lfloor>log 2 \<bar>x\<bar>\<rfloor>"

text \<open>Rounding to double precision: to a multiple of \<open>2 ^ (e - 52)\<close>.\<close>

definition double :: "real \<Rightarrow> real" where
  "double x =
     (if x = 0 then 0
      else 2 powr real_of_int (binade x - 52)
             * real_of_int (round_half_even (x / 2 powr real_of_int (binade x - 52))))"

text \<open>\<open>x % m\<close> on floats as CPython computes it: the C function \<open>fmod\<close>, which is exact and
  has the sign of \<open>x\<close>, and then, when the remainder is not zero and its sign is not that of
  \<open>m\<close>, the rounded sum of the remainder and \<open>m\<close>.\<close>

definition float_mod :: "real \<Rightarrow> real \<Rightarrow> real" where
  "float_mod x m =
     (let r = x - m * real_of_int (py_int (x / m))
      in if r \<noteq> 0 \<and> ((m < 0) \<noteq> (r < 0)) then double (r + m) else r)"

text \<open>\<open>calculate_lahiri_ayanamsa\<close> in double precision; Python evaluates
  \<open>23.85 + 50.29 * t / 3600 - 0.000279 * t * t\<close> from left to right, products and quotients
  first.\<close>

definition calculate_lahiri_ayanamsa_double :: "real \<Rightarrow> real" where
  "calculate_lahiri_ayanamsa_double jd =
     (let t = double (double (jd - 2451545.0) / 36525);
          ayanamsa = double (double (double 23.85 + double (double (double 50.29 * t) / 3600))
                              - double (double (double 0.000279 * t) * t))
      in ayanamsa)"

text \<open>\<open>calculate_vedic_positions\<close> in double precision.\<close>

definition calculate_vedic_positions_double ::
    "(string \<rightharpoonup> real) \<Rightarrow> real \<Rightarrow> (string \<rightharpoonup> real) \<times> real" where
  "calculate_vedic_positions_double tropical_positions jd =
     (let ayanamsa = calculate_lahiri_ayanamsa_double jd;
          vedic_positions =
            (\<lambda>planet. case tropical_positions planet of
                         None \<Rightarrow> None
                       | Some position \<Rightarrow> Some (float_mod (double (position - ayanamsa)) 360))
      in (vedic_positions, ayanamsa))"

subsection \<open>Houses in double precision\<close>

text \<open>
  \<open>calculate_houses\<close> calls \<open>math.sin\<close>, \<open>math.cos\<close>, \<open>math.tan\<close> and \<open>math.atan2\<close>, the
  functions of the C library. Their results are doubles near the exact values; which ones,
  is up to the library, so the model takes the four functions as a parameter.
\<close>

record libm =
  m_sin :: "real \<Rightarrow> real"
  m_cos :: "real \<Rightarrow> real"
  m_tan :: "real \<Rightarrow> real"
  m_atan2 :: "real \<Rightarrow> real \<Rightarrow> real"

text \<open>\<open>math.pi\<close>, the double nearest to pi.\<close>

definition pi_double :: real where
  "pi_double = 884279719003555 / 2 ^ 48"

text \<open>\<open>math.radians\<close> and \<open>math.degrees\<close> multiply by the rounded constants \<open>pi / 180\<close> and
  \<open>180 / pi\<close>.\<close>

definition radians_double :: "real \<Rightarrow> real" where
  "radians_double x = double (x * double (pi_double / 180))"

definition degrees_double :: "real \<Rightarrow> real" where
  "degrees_double x = double (x * double (180 / pi_double))"

text \<open>\<open>x // m\<close> on floats as CPython computes it, from the exact remainder of \<open>fmod\<close>.\<close>

definition float_floordiv :: "real \<Rightarrow> real \<Rightarrow> real" where
  "float_floordiv x m =
     (let r = x - m * real_of_int (py_int (x / m));
          quotient0 = double (double (x - r) / m);
          quotient = (if r \<noteq> 0 \<and> ((m < 0) \<noteq> (r < 0)) then double (quotient0 - 1) else quotient0)
      in if quotient \<noteq> 0
         then (let floordiv = real_of_int \<lfloor>quotient\<rfloor>
               in if 1 / 2 < double (quotient - floordiv) then double (floordiv + 1) else floordiv)
         else 0)"

text \<open>The Ascendant and the Midheaven; the Julian Day, the latitude and the longitude are
  doubles.\<close>

definition local_sidereal_time_double :: "real \<Rightarrow> real \<Rightarrow> real" where
  "local_sidereal_time_double jd longitude =
     (let gst = double (double 280.46061837
                  + double (double 360.98564736629 * double (jd - 2451545.0)));
          lst = float_mod (double (gst + longitude)) 360
      in lst)"

definition houses_ascendant_double :: "libm \<Rightarrow> real \<Rightarrow> real \<Rightarrow> real \<Rightarrow> real" where
  "houses_ascendant_double lib jd latitude longitude =
     (let t = double (double (jd - 2451545.0) / 36525);
          lst = local_sidereal_time_double jd longitude;
          obliquity = double (double (double 23.4392911 - double (double 0.0130125 * t))
                        - double (double (double 0.00000164 * t) * t));
          lat_rad = radians_double latitude;
          lst_rad = radians_double lst;
          obl_rad = radians_double obliquity;
          y = m_cos lib lst_rad;
          x = double (double (- m_sin lib lst_rad * m_cos lib obl_rad)
                - double (m_tan lib lat_rad * m_sin lib obl_rad));
          ascendant = float_mod (degrees_double (m_atan2 lib y x)) 360
      in ascendant)"

definition houses_mc_double :: "real \<Rightarrow> real \<Rightarrow> real" where
  "houses_mc_double jd longitude = float_mod (local_sidereal_time_double jd longitude) 360"

text \<open>The loops of the quadrant branch and of the Equal branch: every sum is rounded before
  its remainder is taken.\<close>

fun intermediate_houses_double :: "real \<Rightarrow> int list \<Rightarrow> (int \<rightharpoonup> real) \<Rightarrow> (int \<rightharpoonup> real)" where
  "intermediate_houses_double ascendant [] houses = houses"
| "intermediate_houses_double ascendant (i # rest) houses =
     (if i \<le> 3
      then intermediate_houses_double ascendant rest
             (houses(i \<mapsto> float_mod (double (ascendant + real_of_int ((i - 1) * 30))) 360))
      else intermediate_houses_double ascendant rest
             (houses(i \<mapsto> float_mod (double (ascendant + real_of_int ((i - 1) * 30))) 360)))"

fun complete_wheel_double :: "int list \<Rightarrow> (int \<rightharpoonup> real) \<Rightarrow> py_error + (int \<rightharpoonup> real)" where
  "complete_wheel_double [] houses = Inr houses"
| "complete_wheel_double (i # rest) houses =
     (case houses (i - 6) of
        None \<Rightarrow> Inl KeyError
      | Some opposite \<Rightarrow>
          complete_wheel_double rest
            (houses((if i mod 12 \<noteq> 0 then i mod 12 else 12)
               \<mapsto> float_mod (double (opposite + 180)) 360)))"

fun equal_houses_double :: "real \<Rightarrow> int list \<Rightarrow> (int \<rightharpoonup> real) \<Rightarrow> (int \<rightharpoonup> real)" where
  "equal_houses_double ascendant [] houses = houses"
| "equal_houses_double ascendant (i # rest) houses =
     equal_houses_double ascendant rest
       (houses(i \<mapsto> float_mod (double (ascendant + real_of_int ((i - 1) * 30))) 360))"

text \<open>\<open>calculate_houses\<close> in double precision.\<close>

definition calculate_houses_double ::
    "libm \<Rightarrow> real \<Rightarrow> real \<Rightarrow> real \<Rightarrow> string \<Rightarrow> py_error + ((int \<rightharpoonup> real) \<times> real)" where
  "calculate_houses_double lib jd latitude longitude house_system =
     (let ascendant = houses_ascendant_double lib jd latitude longitude;
          mc = houses_mc_double jd longitude
      in if house_system = ''Whole Sign''
         then (let asc_sign = py_int (float_floordiv ascendant 30)
               in Inr (whole_sign_houses asc_sign [1..12] Map.empty, ascendant))
         else if house_system = ''Equal''
         then Inr (equal_houses_double ascendant [1..12] Map.empty, ascendant)
         else (let houses = [1 \<mapsto> ascendant,
                             4 \<mapsto> float_mod (double (mc + 180)) 360,
                             7 \<mapsto> float_mod (double (ascendant + 180)) 360,
                             10 \<mapsto> mc]
               in case complete_wheel_double [8..12]
                         (intermediate_houses_double ascendant [2..6] houses) of
                    Inl e \<Rightarrow> Inl e
                  | Inr houses' \<Rightarrow> Inr (houses', ascendant)))"

text \<open>The cusp \<open>(ascendant + (n - 1) * 30) % 360\<close> of house \<open>n\<close>, and \<open>(v + 180) % 360\<close>, what the
  last loop of the quadrant branch makes of the cusp \<open>v\<close> of the house opposite.\<close>

definition double_cusp :: "real \<Rightarrow> int \<Rightarrow> real" where
  "double_cusp ascendant n = float_mod (double (ascendant + real_of_int ((n - 1) * 30))) 360"

definition opposite_double :: "real \<Rightarrow> real" where
  "opposite_double v = float_mod (double (v + 180)) 360"

section \<open>Concrete inputs\<close>

text \<open>Birth moments and dates at which the functions are evaluated below.\<close>

definition birth_1994_02_07 :: datetime where
  "birth_1994_02_07 = \<lparr>dt_year = 1994, dt_month = 2, dt_day = 7, dt_hour = 20, dt_minute = 0,
            dt_second = 0, dt_microsecond = 0\<rparr>"

definition date_1994_10_25 :: datetime where
  "date_1994_10_25 = \<lparr>dt_year = 1994, dt_month = 10, dt_day = 25, dt_hour = 20, dt_minute = 0,
            dt_second = 0, dt_microsecond = 0\<rparr>"

definition date_1850_06_15 :: datetime where
  "date_1850_06_15 = \<lparr>dt_year = 1850, dt_month = 6, dt_day = 15, dt_hour = 0, dt_minute = 0,
            dt_second = 0, dt_microsecond = 0\<rparr>"

definition tropical_sun_100 :: "string \<rightharpoonup> real" where
  "tropical_sun_100 = [''Sun'' \<mapsto> 100]"

text \<open>A place and time for the houses: J2000.0, latitude 45 degrees, and the eastern
  longitude at which the local sidereal time is 0; \<open>obliquity_j2000\<close> is the obliquity the
  source computes at that time.\<close>

definition east_longitude :: real where
  "east_longitude = 79.53938163"

definition obliquity_j2000 :: real where
  "obliquity_j2000 = 23.4392911"

definition birth_1994_01_15 :: datetime where
  "birth_1994_01_15 = \<lparr>dt_year = 1994, dt_month = 1, dt_day = 15, dt_hour = 12, dt_minute = 0,
            dt_second = 0, dt_microsecond = 0\<rparr>"

text \<open>Doubles that occur below: the double nearest to 23.85 and the one just under it; the
  sidereal longitude that the tropical longitude 100 gets at J2000.0, and what the round
  trip makes of it.\<close>

definition double_23_85 :: real where
  "double_23_85 = 6713178194549146 / 2 ^ 48"

definition double_below_23_85 :: real where
  "double_below_23_85 = 6713178194549145 / 2 ^ 48"

definition double_76_15 :: real where
  "double_76_15 = 2679289934564557 / 2 ^ 45"

definition double_round_trip :: real where
  "double_round_trip = 6713178194549144 / 2 ^ 48"

text \<open>What the C library (glibc on x86-64) returns at the arguments that occur for J2000.0,
  latitude 0 and longitude 2: the sine and the cosine of the local sidereal time and of the
  obliquity in radians, the tangent of 0 and the arctangent; what the four functions are
  elsewhere plays no role. Then the Ascendant that \<open>calculate_houses\<close> returns there,
  13.54166105153926, and the cusp of house 12 in the quadrant branch, 343.5416610515392, and
  in the Equal branch, 343.5416610515393.\<close>

definition libm_observed :: libm where
  "libm_observed =
     \<lparr>m_sin = (\<lambda>x. if x = 5550537694262089 / 2 ^ 50 then -4397515284061613 / 2 ^ 52
                     else if x = 1842390199782269 / 2 ^ 52 then 3582858100860335 / 2 ^ 53 else 0),
      m_cos = (\<lambda>x. if x = 5550537694262089 / 2 ^ 50 then 7773880081796709 / 2 ^ 55
                     else if x = 1842390199782269 / 2 ^ 52 then 8263943746402571 / 2 ^ 53 else 1),
      m_tan = (\<lambda>x. 0),
      m_atan2 = (\<lambda>y x. if y = 7773880081796709 / 2 ^ 55 \<and> x = 8069282782281627 / 2 ^ 53
                       then 8515282652086415 / 2 ^ 55 else 0)\<rparr>"

definition ascendant_observed :: real where
  "ascendant_observed = 7623277458211221 / 2 ^ 49"

definition cusp_12_quadrant :: real where
  "cusp_12_quadrant = 1510912203806595 / 2 ^ 42"

definition cusp_12_equal :: real where
  "cusp_12_equal = 6043648815226381 / 2 ^ 44"

section \<open>Facts about the primitives\<close>

lemma py_mod_range:
  assumes "0 < m"
  shows "0 \<le> py_mod x m" and "py_mod x m < m"
proof -
  have a: "real_of_int \<lfloor>x / m\<rfloor> \<le> x / m" by (rule of_int_floor_le)
  have b: "x / m < real_of_int \<lfloor>x / m\<rfloor> + 1" by linarith
  have "m * real_of_int \<lfloor>x / m\<rfloor> \<le> m * (x / m)"
    using a assms by (intro mult_left_mono) auto
  then have "m * real_of_int \<lfloor>x / m\<rfloor> \<le> x" using assms by simp
  then show "0 \<le> py_mod x m" by (simp add: py_mod_def)
  have "m * (x / m) < m * (real_of_int \<lfloor>x / m\<rfloor> + 1)"
    using b assms by (intro mult_strict_left_mono) auto
  then have "x < m * (real_of_int \<lfloor>x / m\<rfloor> + 1)" using assms by simp
  then show "py_mod x m < m" by (simp add: py_mod_def algebra_simps)
qed

lemma py_mod_id:
  assumes "0 \<le> x" and "x < m"
  shows "py_mod x m = x"
proof -
  have "0 < m" using assms by linarith
  have "\<lfloor>x / m\<rfloor> = 0"
    using assms \<open>0 < m\<close> by (simp add: floor_eq_iff)
  then show ?thesis by (simp add: py_mod_def)
qed

lemma py_mod_shift:
  assumes "m \<noteq> 0"
  shows "py_mod (x + m * real_of_int k) m = py_mod x m"
proof -
  have "(x + m * real_of_int k) / m = x / m + real_of_int k"
    using assms by (simp add: add_divide_distrib)
  then have "\<lfloor>(x + m * real_of_int k) / m\<rfloor> = \<lfloor>x / m\<rfloor> + k" by simp
  then show ?thesis by (simp add: py_mod_def algebra_simps)
qed

lemma py_mod_add_left:
  assumes "m \<noteq> 0"
  shows "py_mod (py_mod a m + b) m = py_mod (a + b) m"
proof -
  have eq: "py_mod a m + b = (a + b) + m * real_of_int (- \<lfloor>a / m\<rfloor>)"
    by (simp add: py_mod_def)
  have "py_mod (py_mod a m + b) m = py_mod ((a + b) + m * real_of_int (- \<lfloor>a / m\<rfloor>)) m"
    by (simp only: eq)
  also have "\<dots> = py_mod (a + b) m" by (rule py_mod_shift [OF assms])
  finally show ?thesis .
qed

lemma length_mayan_day_signs: "length mayan_day_signs = 20"
  by (simp add: mayan_day_signs_def)

lemma subscript_in_range:
  "0 \<le> i \<Longrightarrow> i < int (length xs) \<Longrightarrow> subscript xs i = Inr (xs ! nat i)"
  by (simp add: subscript_def)

lemma tzolkin_kin_range: "0 \<le> tzolkin_kin d" "tzolkin_kin d < 260"
  by (simp_all add: tzolkin_kin_def Let_def)

lemma microseconds_of_day_range:
  assumes "valid_datetime d"
  shows "0 \<le> microseconds_of_day d" and "microseconds_of_day d < 86400000000"
proof -
  from assms have h: "0 \<le> dt_hour d" "dt_hour d \<le> 23" "0 \<le> dt_minute d" "dt_minute d \<le> 59"
    "0 \<le> dt_second d" "dt_second d \<le> 59" "0 \<le> dt_microsecond d" "dt_microsecond d \<le> 999999"
    by (simp_all add: valid_datetime_def)
  show "0 \<le> microseconds_of_day d" using h by (simp add: microseconds_of_day_def)
  show "microseconds_of_day d < 86400000000" using h by (simp add: microseconds_of_day_def algebra_simps)
qed

lemma microseconds_of_day_epoch: "microseconds_of_day epoch = 0"
  by (simp add: microseconds_of_day_def epoch_def)

lemma timedelta_days_epoch:
  assumes "valid_datetime d"
  shows "timedelta_days d epoch = toordinal d - toordinal epoch"
proof -
  have "((toordinal d - toordinal epoch) * 86400000000 + microseconds_of_day d) div 86400000000
        = toordinal d - toordinal epoch"
    using microseconds_of_day_range [OF assms] by (simp add: div_pos_pos_trivial)
  then show ?thesis by (simp add: timedelta_days_def microseconds_of_day_epoch)
qed

section \<open>Properties of the Tzolkin reading\<close>

lemma tzolkin_day_sign_index_range:
  "0 \<le> tzolkin_day_sign_index d" "tzolkin_day_sign_index d < 20"
  by (simp_all add: tzolkin_day_sign_index_def)

lemma calculate_mayan_tzolkin_eq:
  "calculate_mayan_tzolkin d =
     Inr \<lparr>tz_kin = tzolkin_kin d + 1,
          tz_day_sign = fst (mayan_day_signs ! nat (tzolkin_day_sign_index d)),
          tz_glyph = fst (snd (mayan_day_signs ! nat (tzolkin_day_sign_index d))),
          tz_meaning = snd (snd (mayan_day_signs ! nat (tzolkin_day_sign_index d))),
          tz_galactic_tone = tzolkin_galactic_tone d\<rparr>"
  using tzolkin_day_sign_index_range [of d]
  by (simp add: calculate_mayan_tzolkin_def subscript_in_range length_mayan_day_signs)

lemma tzolkin_kin_period:
  assumes "valid_datetime d1" and "valid_datetime d2" and "toordinal d2 = toordinal d1 + 260"
  shows "tzolkin_kin d2 = tzolkin_kin d1"
proof -
  have step: "timedelta_days d2 epoch = timedelta_days d1 epoch + 260"
    using assms by (simp add: timedelta_days_epoch)
  have "timedelta_days d1 epoch + 260 + 584283 = (timedelta_days d1 epoch + 584283) + 260"
    by simp
  then have "(timedelta_days d1 epoch + 260 + 584283) mod 260
      = (timedelta_days d1 epoch + 584283) mod 260"
    by (simp only: mod_add_self2)
  then show ?thesis unfolding tzolkin_kin_def Let_def step .
qed

text \<open>
  C6. For every civil date, also one before 1900, \<open>calculate_mayan_tzolkin\<close> returns a
  reading (the table lookup does not fail) whose kin number lies in 1..260 and whose
  galactic tone lies in 1..13, and the day-sign index lies in 0..19; and two civil dates
  260 days apart get the same reading.
\<close>

theorem tzolkin_ranges_and_period:
  "(\<exists>r. calculate_mayan_tzolkin d = Inr r
        \<and> 1 \<le> tz_kin r \<and> tz_kin r \<le> 260
        \<and> 1 \<le> tz_galactic_tone r \<and> tz_galactic_tone r \<le> 13
        \<and> subscript mayan_day_signs (tzolkin_day_sign_index d)
            = Inr (tz_day_sign r, tz_glyph r, tz_meaning r))
   \<and> 0 \<le> tzolkin_day_sign_index d \<and> tzolkin_day_sign_index d \<le> 19
   \<and> (valid_datetime d1 \<and> valid_datetime d2 \<and> toordinal d2 = toordinal d1 + 260
        \<longrightarrow> calculate_mayan_tzolkin d2 = calculate_mayan_tzolkin d1)"
proof (intro conjI impI)
  have k: "0 \<le> tzolkin_kin d" "tzolkin_kin d < 260" by (rule tzolkin_kin_range)+
  have t: "0 \<le> tzolkin_kin d mod 13" "tzolkin_kin d mod 13 < 13" by simp_all
  show "\<exists>r. calculate_mayan_tzolkin d = Inr r
        \<and> 1 \<le> tz_kin r \<and> tz_kin r \<le> 260
        \<and> 1 \<le> tz_galactic_tone r \<and> tz_galactic_tone r \<le> 13
        \<and> subscript mayan_day_signs (tzolkin_day_sign_index d)
            = Inr (tz_day_sign r, tz_glyph r, tz_meaning r)"
    using k t tzolkin_day_sign_index_range [of d]
    by (simp add: calculate_mayan_tzolkin_eq tzolkin_galactic_tone_def subscript_in_range
        length_mayan_day_signs)
  show "0 \<le> tzolkin_day_sign_index d" by (rule tzolkin_day_sign_index_range)
  show "tzolkin_day_sign_index d \<le> 19" using tzolkin_day_sign_index_range(2) [of d] by simp
next
  assume "valid_datetime d1 \<and> valid_datetime d2 \<and> toordinal d2 = toordinal d1 + 260"
  then have "tzolkin_kin d2 = tzolkin_kin d1" by (simp add: tzolkin_kin_period)
  then show "calculate_mayan_tzolkin d2 = calculate_mayan_tzolkin d1"
    by (simp add: calculate_mayan_tzolkin_eq tzolkin_day_sign_index_def tzolkin_galactic_tone_def)
qed

lemma toordinal_birth_1994_02_07: "toordinal birth_1994_02_07 = 727966"
  by (simp add: toordinal_def birth_1994_02_07_def days_before_year_def days_before_month_def)

lemma toordinal_date_1994_10_25: "toordinal date_1994_10_25 = 728226"
  by (simp add: toordinal_def date_1994_10_25_def days_before_year_def days_before_month_def is_leap_def)

lemma toordinal_epoch: "toordinal epoch = 693596"
  by (simp add: toordinal_def epoch_def days_before_year_def days_before_month_def)

lemma valid_birth_1994_02_07: "valid_datetime birth_1994_02_07"
  by (simp add: valid_datetime_def birth_1994_02_07_def days_in_month_def is_leap_def)

lemma valid_date_1994_10_25: "valid_datetime date_1994_10_25"
  by (simp add: valid_datetime_def date_1994_10_25_def days_in_month_def is_leap_def)

lemma tzolkin_kin_birth_1994_02_07: "tzolkin_kin birth_1994_02_07 = 113"
  by (simp add: tzolkin_kin_def timedelta_days_epoch valid_birth_1994_02_07
      toordinal_birth_1994_02_07 toordinal_epoch)

theorem tzolkin_ranges_and_period_witness:
  "valid_datetime birth_1994_02_07 \<and> valid_datetime date_1994_10_25
   \<and> toordinal date_1994_10_25 = toordinal birth_1994_02_07 + 260
   \<and> calculate_mayan_tzolkin date_1994_10_25 = calculate_mayan_tzolkin birth_1994_02_07
   \<and> 0 \<le> tzolkin_day_sign_index date_1850_06_15 \<and> tzolkin_day_sign_index date_1850_06_15 \<le> 19"
  using tzolkin_ranges_and_period [of date_1850_06_15 birth_1994_02_07 date_1994_10_25]
  by (simp add: valid_birth_1994_02_07 valid_date_1994_10_25 toordinal_birth_1994_02_07
      toordinal_date_1994_10_25)

text \<open>
  C7 as stated fails: the reading carries the kin number \<open>kin + 1\<close>, so for the birth
  moment 1994-02-07 20:00 the kin number is 114, the day-sign index is 13 and the tone is 10,
  while \<open>114 mod 20 = 14\<close> and \<open>114 mod 13 + 1 = 11\<close>.
\<close>

theorem tzolkin_returned_kin_counterexample:
  "calculate_mayan_tzolkin birth_1994_02_07
     = Inr \<lparr>tz_kin = 114, tz_day_sign = ''Ix'', tz_glyph = ''Jaguar'',
            tz_meaning = ''Magical powers'', tz_galactic_tone = 10\<rparr>
   \<and> tzolkin_day_sign_index birth_1994_02_07 = 13
   \<and> \<not> ((114::int) mod 20 = tzolkin_day_sign_index birth_1994_02_07
        \<and> (114::int) mod 13 + 1 = 10)"
  by (simp add: calculate_mayan_tzolkin_eq tzolkin_kin_birth_1994_02_07 tzolkin_day_sign_index_def
      tzolkin_galactic_tone_def mayan_day_signs_def)

text \<open>
  C7, amended. For every civil date the reading is consistent in terms of the kin counted
  from zero, that is the returned kin number less one: \<open>(kin number - 1) mod 20\<close> is the
  day-sign index, whose table entry the reading carries, and
  \<open>(kin number - 1) mod 13 + 1\<close> is the galactic tone. The returned kin number itself
  never has the day-sign index as its remainder modulo 20.
\<close>

theorem tzolkin_zero_based_kin_consistent:
  "\<exists>r. calculate_mayan_tzolkin d = Inr r
       \<and> (tz_kin r - 1) mod 20 = tzolkin_day_sign_index d
       \<and> (tz_kin r - 1) mod 13 + 1 = tz_galactic_tone r
       \<and> tz_kin r mod 20 \<noteq> tzolkin_day_sign_index d
       \<and> subscript mayan_day_signs (tzolkin_day_sign_index d)
           = Inr (tz_day_sign r, tz_glyph r, tz_meaning r)"
proof -
  have "(k + 1) mod 20 \<noteq> k mod 20" for k :: int
    by presburger
  then show ?thesis
    using tzolkin_day_sign_index_range [of d]
    by (simp add: calculate_mayan_tzolkin_eq tzolkin_day_sign_index_def tzolkin_galactic_tone_def
        subscript_in_range length_mayan_day_signs)
qed

section \<open>Properties of the nakshatra lookup\<close>









section \<open>Properties of the ayanamsa and of the sidereal projection\<close>

lemma ayanamsa_poly:
  "calculate_lahiri_ayanamsa jd
     = 23.85 + 50.29 * ((jd - 2451545) / 36525) / 3600
         - 0.000279 * ((jd - 2451545) / 36525) * ((jd - 2451545) / 36525)"
  by (simp add: calculate_lahiri_ayanamsa_def Let_def)

lemma quadratic_increasing:
  fixes t1 t2 :: real
  assumes "t1 < t2" and "t2 \<le> 25"
  shows "23.85 + 50.29 * t1 / 3600 - 0.000279 * t1 * t1
       < 23.85 + 50.29 * t2 / 3600 - 0.000279 * t2 * t2"
proof -
  have s: "t1 + t2 < 50" using assms by linarith
  have "0 < 50.29 / 3600 - 0.000279 * (t1 + t2)" using s by simp
  moreover have "0 < t2 - t1" using assms by simp
  ultimately have pos: "0 < (t2 - t1) * (50.29 / 3600 - 0.000279 * (t1 + t2))"
    by (rule mult_pos_pos [rotated])
  define A where "A = 23.85 + 50.29 * t2 / 3600 - 0.000279 * t2 * t2"
  define B where "B = 23.85 + 50.29 * t1 / 3600 - 0.000279 * t1 * t1"
  have "(t2 - t1) * (50.29 / 3600 - 0.000279 * (t1 + t2)) = A - B"
    unfolding A_def B_def by (simp add: algebra_simps diff_divide_distrib)
  with pos have "0 < A - B" by simp
  then have "B < A" by simp
  then show ?thesis unfolding A_def B_def .
qed

text \<open>
  In exact arithmetic the polynomial of \<open>calculate_lahiri_ayanamsa\<close> is strictly
  increasing in the Julian Day up to 25 Julian centuries after J2000.0 (about the year
  4500), with no bound on the past. This is a fact about the formula, not about its
  evaluation in doubles.
\<close>

theorem ayanamsa_strictly_increasing:
  assumes "jd1 < jd2" and "jd2 \<le> 2451545 + 25 * 36525"
  shows "calculate_lahiri_ayanamsa jd1 < calculate_lahiri_ayanamsa jd2"
proof -
  have "(jd1 - 2451545) / 36525 < (jd2 - 2451545) / 36525"
    using assms(1) by (simp add: divide_strict_right_mono)
  moreover have "(jd2 - 2451545) / 36525 \<le> 25" using assms(2) by simp
  ultimately show ?thesis
    unfolding ayanamsa_poly by (rule quadratic_increasing)
qed

theorem ayanamsa_strictly_increasing_witness:
  "(2449391 :: real) < 2451545 \<and> (2451545 :: real) \<le> 2451545 + 25 * 36525
   \<and> calculate_lahiri_ayanamsa 2449391 < calculate_lahiri_ayanamsa 2451545"
proof -
  have a: "(2449391 :: real) < 2451545" and b: "(2451545 :: real) \<le> 2451545 + 25 * 36525"
    by simp_all
  show ?thesis using ayanamsa_strictly_increasing [OF a b] a b by blast
qed

text \<open>
  The bound matters: the parabola has its vertex a little after 25 centuries, and from
  there on the value falls.
\<close>

lemma ayanamsa_not_increasing_later:
  "calculate_lahiri_ayanamsa (2451545 + 30 * 36525) < calculate_lahiri_ayanamsa (2451545 + 26 * 36525)"
  by (simp add: ayanamsa_poly)

lemma julian_day_1994_02_07: "calculate_julian_day 1994 2 7 20 0 = 7348174 / 3"
  by (simp add: calculate_julian_day_def Let_def)

lemma ayanamsa_1994_02_07:
  "calculate_lahiri_ayanamsa (7348174 / 3) = 23.85 - 50.29 * (6461 / 109575) / 3600
     - 0.000279 * (6461 / 109575) * (6461 / 109575)"
  by (simp add: ayanamsa_poly)

text \<open>
  C9. \<open>calculate_julian_day 1994 2 7 20 0\<close> is the value of the Gregorian formula with
  February taken as month 14 of 1993, which is 2449391.3333...; the ayanamsa of that
  Julian Day is 23.849..., which is near the band from 23.9 to 24.0 degrees: it lies
  just under the band, less than 0.051 degrees from its lower end.
\<close>

theorem julian_day_and_ayanamsa_1994:
  "calculate_julian_day 1994 2 7 20 0
     = real_of_int \<lfloor>365.25 * real_of_int (1993 + 4716)\<rfloor>
         + real_of_int \<lfloor>30.6001 * real_of_int (14 + 1)\<rfloor>
         + 7 + real_of_int (2 - 19 + 4) - 1524.5 + 20 / 24
   \<and> calculate_julian_day 1994 2 7 20 0 = 2449391 + 1 / 3
   \<and> 23.849 < calculate_lahiri_ayanamsa (calculate_julian_day 1994 2 7 20 0)
   \<and> calculate_lahiri_ayanamsa (calculate_julian_day 1994 2 7 20 0) < 23.85
   \<and> \<bar>calculate_lahiri_ayanamsa (calculate_julian_day 1994 2 7 20 0) - 23.9\<bar> < 0.051"
  by (simp add: julian_day_1994_02_07 ayanamsa_poly)

lemma py_mod_diff_py_mod:
  "py_mod (p - py_mod (p - a) 360) 360 = py_mod a 360"
proof -
  have "p - py_mod (p - a) 360 = a + 360 * real_of_int \<lfloor>(p - a) / 360\<rfloor>"
    by (simp add: py_mod_def)
  then have "py_mod (p - py_mod (p - a) 360) 360
      = py_mod (a + 360 * real_of_int \<lfloor>(p - a) / 360\<rfloor>) 360"
    by (simp only:)
  also have "\<dots> = py_mod a 360" by (rule py_mod_shift) simp
  finally show ?thesis .
qed

lemma py_mod_eq_self_iff:
  "(py_mod a 360 = a) = (0 \<le> a \<and> a < 360)"
proof
  assume "py_mod a 360 = a"
  then show "0 \<le> a \<and> a < 360"
    using py_mod_range [of 360 a] by simp
next
  assume "0 \<le> a \<and> a < 360"
  then show "py_mod a 360 = a" by (simp add: py_mod_id)
qed

text \<open>
  In exact arithmetic, for every dictionary of tropical longitudes, every body in it and
  every Julian Day, the sidereal longitude of the body is there, the ayanamsa returned is
  \<open>calculate_lahiri_ayanamsa jd\<close>, and (tropical - sidereal) mod 360 equals the ayanamsa
  mod 360; it equals the ayanamsa itself exactly when the ayanamsa lies in [0, 360).
\<close>

theorem vedic_round_trip_modulo:
  assumes "tropical_positions body = Some p"
  shows "\<exists>s. fst (calculate_vedic_positions tropical_positions jd) body = Some s
     \<and> snd (calculate_vedic_positions tropical_positions jd) = calculate_lahiri_ayanamsa jd
     \<and> py_mod (p - s) 360 = py_mod (calculate_lahiri_ayanamsa jd) 360
     \<and> ((py_mod (p - s) 360 = calculate_lahiri_ayanamsa jd)
          = (0 \<le> calculate_lahiri_ayanamsa jd \<and> calculate_lahiri_ayanamsa jd < 360))"
  using assms
  by (simp add: calculate_vedic_positions_def Let_def py_mod_diff_py_mod py_mod_eq_self_iff)

lemma ayanamsa_far_before_epoch: "calculate_lahiri_ayanamsa (- 34073455) = - (96883 / 360)"
  by (simp add: ayanamsa_poly)

text \<open>
  Far from the epoch the polynomial is negative: one thousand centuries before J2000.0 the
  ayanamsa is about -269.12, a tropical longitude of 100 gets the sidereal longitude 9.12,
  and (100 - 9.12) mod 360 is 90.88.
\<close>

theorem vedic_round_trip_counterexample:
  "tropical_sun_100 ''Sun'' = Some 100
   \<and> fst (calculate_vedic_positions tropical_sun_100 (- 34073455)) ''Sun'' = Some (3283 / 360)
   \<and> snd (calculate_vedic_positions tropical_sun_100 (- 34073455)) = - (96883 / 360)
   \<and> py_mod (100 - 3283 / 360) 360 = 32717 / 360
   \<and> py_mod (100 - 3283 / 360) 360 \<noteq> calculate_lahiri_ayanamsa (- 34073455)"
proof -
  show ?thesis
    by (simp add: calculate_vedic_positions_def Let_def tropical_sun_100_def
        ayanamsa_far_before_epoch py_mod_def)
qed

lemma ayanamsa_epoch: "calculate_lahiri_ayanamsa 2451545 = 23.85"
  by (simp add: ayanamsa_poly)

text \<open>
  At J2000.0 the ayanamsa is 23.85 and the round trip gives it back.
\<close>

theorem vedic_round_trip_modulo_witness:
  "tropical_sun_100 ''Sun'' = Some 100
   \<and> fst (calculate_vedic_positions tropical_sun_100 2451545) ''Sun'' = Some 76.15
   \<and> py_mod (100 - 76.15) 360 = calculate_lahiri_ayanamsa 2451545"
proof -
  have a: "tropical_sun_100 ''Sun'' = Some 100" by (simp add: tropical_sun_100_def)
  have s: "fst (calculate_vedic_positions tropical_sun_100 2451545) ''Sun'' = Some 76.15"
    by (simp add: calculate_vedic_positions_def Let_def tropical_sun_100_def ayanamsa_epoch
        py_mod_def)
  have r: "0 \<le> calculate_lahiri_ayanamsa 2451545 \<and> calculate_lahiri_ayanamsa 2451545 < 360"
    by (simp add: ayanamsa_epoch)
  from vedic_round_trip_modulo [of tropical_sun_100 "''Sun''" 100 2451545] a
  obtain s0 where s0: "fst (calculate_vedic_positions tropical_sun_100 2451545) ''Sun'' = Some s0"
    and eq: "(py_mod (100 - s0) 360 = calculate_lahiri_ayanamsa 2451545)
       = (0 \<le> calculate_lahiri_ayanamsa 2451545 \<and> calculate_lahiri_ayanamsa 2451545 < 360)"
    by blast
  from s0 s have "s0 = 76.15" by (simp only: option.inject)
  with eq r have "py_mod (100 - 76.15) 360 = calculate_lahiri_ayanamsa 2451545" by blast
  with a s show ?thesis by blast
qed

section \<open>Longitudes stay in range\<close>

lemma in_range_upd:
  assumes "\<forall>b p. m b = Some p \<longrightarrow> 0 \<le> p \<and> p < 360"
  shows "\<forall>b p. (m(k \<mapsto> py_mod x 360)) b = Some p \<longrightarrow> 0 \<le> p \<and> p < 360"
  using assms py_mod_range [of 360 x] by auto

lemma planetary_positions_in_range:
  "\<forall>b p. calculate_planetary_positions jd b = Some p \<longrightarrow> 0 \<le> p \<and> p < 360"
  unfolding calculate_planetary_positions_def Let_def
  by (intro in_range_upd) simp

lemma planetary_positions_dom:
  "dom (calculate_planetary_positions jd)
     = {''Saturn'', ''Jupiter'', ''Mars'', ''Venus'', ''Mercury'', ''Moon'', ''Sun''}"
  unfolding calculate_planetary_positions_def Let_def
  by (simp only: dom_fun_upd dom_empty option.distinct if_False)

lemma vedic_positions_in_range:
  "fst (calculate_vedic_positions tropical_positions jd) b = Some s \<Longrightarrow> 0 \<le> s \<and> s < 360"
  using py_mod_range [of 360]
  by (auto simp: calculate_vedic_positions_def Let_def split: option.splits)

lemma vedic_positions_dom:
  "dom (fst (calculate_vedic_positions tropical_positions jd)) = dom tropical_positions"
  by (auto simp: calculate_vedic_positions_def Let_def split: option.splits)

lemma seven_reversed: "{g, f, e, d, c, b, a} = {a, b, c, d, e, f, g}"
  by blast

lemma planetary_positions_bodies:
  "dom (calculate_planetary_positions jd)
     = {''Sun'', ''Moon'', ''Mercury'', ''Venus'', ''Mars'', ''Jupiter'', ''Saturn''}"
  by (rule trans [OF planetary_positions_dom seven_reversed])

text \<open>
  In exact arithmetic, for every Julian Day, before the epoch or after it, every longitude
  in the dictionary returned by \<open>calculate_planetary_positions\<close> lies in [0, 360), and so
  does every longitude in the sidereal dictionary returned by \<open>calculate_vedic_positions\<close>,
  whatever the tropical dictionary it is given; both dictionaries hold the seven bodies.
\<close>

theorem longitudes_in_half_open_interval:
  "(calculate_planetary_positions jd body = Some p \<longrightarrow> 0 \<le> p \<and> p < 360)
   \<and> (fst (calculate_vedic_positions tropical_positions jd) body = Some s \<longrightarrow> 0 \<le> s \<and> s < 360)
   \<and> dom (calculate_planetary_positions jd)
       = {''Sun'', ''Moon'', ''Mercury'', ''Venus'', ''Mars'', ''Jupiter'', ''Saturn''}
   \<and> dom (fst (calculate_vedic_positions (calculate_planetary_positions jd) jd))
       = {''Sun'', ''Moon'', ''Mercury'', ''Venus'', ''Mars'', ''Jupiter'', ''Saturn''}"
proof (intro conjI impI)
  assume "calculate_planetary_positions jd body = Some p"
  then show "0 \<le> p" and "p < 360" using planetary_positions_in_range [of jd] by blast+
next
  assume "fst (calculate_vedic_positions tropical_positions jd) body = Some s"
  then show "0 \<le> s" and "s < 360" using vedic_positions_in_range by blast+
next
  show "dom (calculate_planetary_positions jd)
       = {''Sun'', ''Moon'', ''Mercury'', ''Venus'', ''Mars'', ''Jupiter'', ''Saturn''}"
    by (rule planetary_positions_bodies)
  show "dom (fst (calculate_vedic_positions (calculate_planetary_positions jd) jd))
       = {''Sun'', ''Moon'', ''Mercury'', ''Venus'', ''Mars'', ''Jupiter'', ''Saturn''}"
    by (rule trans [OF vedic_positions_dom planetary_positions_bodies])
qed

text \<open>
  One century before J2000.0 the Moon has a tropical and a sidereal longitude, both in
  range.
\<close>

theorem longitudes_in_half_open_interval_witness:
  "\<exists>p s. calculate_planetary_positions 2415020 ''Moon'' = Some p \<and> 0 \<le> p \<and> p < 360
     \<and> fst (calculate_vedic_positions (calculate_planetary_positions 2415020) 2415020) ''Moon''
         = Some s
     \<and> 0 \<le> s \<and> s < 360"
proof -
  have "''Moon'' \<in> dom (calculate_planetary_positions 2415020)"
    unfolding planetary_positions_bodies by (intro insertI1 insertI2)
  then obtain p where p: "calculate_planetary_positions 2415020 ''Moon'' = Some p" by blast
  have "''Moon'' \<in> dom (fst (calculate_vedic_positions (calculate_planetary_positions 2415020) 2415020))"
    unfolding vedic_positions_dom planetary_positions_bodies by (intro insertI1 insertI2)
  then obtain s where
    s: "fst (calculate_vedic_positions (calculate_planetary_positions 2415020) 2415020) ''Moon''
          = Some s"
    by blast
  note range = longitudes_in_half_open_interval
    [of 2415020 "''Moon''" p "calculate_planetary_positions 2415020" s]
  have rp: "0 \<le> p \<and> p < 360"
    by (rule range [THEN conjunct1, THEN mp, OF p])
  have rs: "0 \<le> s \<and> s < 360"
    by (rule range [THEN conjunct2, THEN conjunct1, THEN mp, OF s])
  from p s rp rs show ?thesis by blast
qed

section \<open>Properties of the house cusps\<close>

lemma houses_ascendant_range:
  "0 \<le> houses_ascendant jd latitude longitude" "houses_ascendant jd latitude longitude < 360"
  by (simp_all add: houses_ascendant_def Let_def py_mod_range)

lemma equal_houses_apply:
  "equal_houses a ks h n
     = (if n \<in> set ks then Some (py_mod (a + real_of_int ((n - 1) * 30)) 360) else h n)"
  by (induction ks arbitrary: h) auto

lemma intermediate_houses_apply:
  "intermediate_houses a ks h n
     = (if n \<in> set ks then Some (py_mod (a + real_of_int ((n - 1) * 30)) 360) else h n)"
  by (induction ks arbitrary: h) auto

lemma upto_8_12: "[8..12] = [8, 9, 10, 11, 12 :: int]"
  by (simp add: upto_rec_numeral)

lemma equal_houses_cusps: "equal_houses a [1..12] Map.empty = equal_cusps a"
  by (rule ext) (simp add: equal_houses_apply equal_cusps_def mult.commute)

lemma complete_wheel_quadrant:
  "complete_wheel [8..12]
      (intermediate_houses a [2..6]
         [1 \<mapsto> a, 4 \<mapsto> py_mod (mc + 180) 360, 7 \<mapsto> py_mod (a + 180) 360, 10 \<mapsto> mc])
   = Inr ((intermediate_houses a [2..6]
         [1 \<mapsto> a, 4 \<mapsto> py_mod (mc + 180) 360, 7 \<mapsto> py_mod (a + 180) 360, 10 \<mapsto> mc])
        (8 \<mapsto> py_mod (py_mod (a + 30) 360 + 180) 360,
         9 \<mapsto> py_mod (py_mod (a + 60) 360 + 180) 360,
         10 \<mapsto> py_mod (py_mod (a + 90) 360 + 180) 360,
         11 \<mapsto> py_mod (py_mod (a + 120) 360 + 180) 360,
         12 \<mapsto> py_mod (py_mod (a + 150) 360 + 180) 360))"
  by (simp add: upto_8_12 intermediate_houses_apply)

lemma opposite_cusp:
  "py_mod (py_mod (a + b) 360 + 180) 360 = py_mod (a + (b + 180)) 360"
proof -
  have "py_mod (py_mod (a + b) 360 + 180) 360 = py_mod ((a + b) + 180) 360"
    by (rule py_mod_add_left) simp
  then show ?thesis by (simp only: add.assoc)
qed

lemma quadrant_cusps:
  assumes "0 \<le> a" and "a < 360"
  shows "(intermediate_houses a [2..6]
         [1 \<mapsto> a, 4 \<mapsto> py_mod (mc + 180) 360, 7 \<mapsto> py_mod (a + 180) 360, 10 \<mapsto> mc])
        (8 \<mapsto> py_mod (py_mod (a + 30) 360 + 180) 360,
         9 \<mapsto> py_mod (py_mod (a + 60) 360 + 180) 360,
         10 \<mapsto> py_mod (py_mod (a + 90) 360 + 180) 360,
         11 \<mapsto> py_mod (py_mod (a + 120) 360 + 180) 360,
         12 \<mapsto> py_mod (py_mod (a + 150) 360 + 180) 360)
     = equal_cusps a" (is "?Q = _")
proof (rule ext)
  fix n :: int
  show "?Q n = equal_cusps a n"
  proof (cases "1 \<le> n \<and> n \<le> 12")
    case False
    then show ?thesis
      by (auto simp: intermediate_houses_apply equal_cusps_def)
  next
    case True
    then have "n \<in> {1, 2, 3, 4, 5, 6, 7, 8, 9, 10, 11, 12}"
      by (simp only: insert_iff empty_iff) arith
    then show ?thesis
      using assms
      by (auto simp: intermediate_houses_apply equal_cusps_def opposite_cusp py_mod_id)
  qed
qed

lemma calculate_houses_equal:
  "calculate_houses jd latitude longitude ''Equal''
     = Inr (equal_cusps (houses_ascendant jd latitude longitude),
            houses_ascendant jd latitude longitude)"
  by (simp add: calculate_houses_def Let_def equal_houses_cusps)

lemma calculate_houses_quadrant:
  assumes "house_system \<noteq> ''Whole Sign''" and "house_system \<noteq> ''Equal''"
  shows "calculate_houses jd latitude longitude house_system
     = Inr (equal_cusps (houses_ascendant jd latitude longitude),
            houses_ascendant jd latitude longitude)"
proof -
  let ?a = "houses_ascendant jd latitude longitude"
  let ?mc = "houses_mc jd longitude"
  let ?h = "intermediate_houses ?a [2..6]
      [1 \<mapsto> ?a, 4 \<mapsto> py_mod (?mc + 180) 360, 7 \<mapsto> py_mod (?a + 180) 360, 10 \<mapsto> ?mc]"
  have "calculate_houses jd latitude longitude house_system
      = (case complete_wheel [8..12] ?h of Inl e \<Rightarrow> Inl e | Inr houses' \<Rightarrow> Inr (houses', ?a))"
    by (simp only: calculate_houses_def Let_def assms if_False)
  also have "\<dots> = Inr (equal_cusps ?a, ?a)"
    by (simp only: complete_wheel_quadrant sum.case
        quadrant_cusps [OF houses_ascendant_range, of jd latitude longitude])
  finally show ?thesis .
qed

text \<open>
  In exact arithmetic, for every Julian Day, latitude and longitude, \<open>calculate_houses\<close>
  with a house system other than Whole Sign and Equal returns what it returns with Equal:
  the loops raise no \<open>KeyError\<close>, the twelve cusps are the Ascendant plus 30 degrees
  times \<open>n - 1\<close>, modulo 360, and the Ascendant is returned with them.
\<close>

theorem quadrant_houses_are_equal_houses:
  assumes "house_system \<noteq> ''Whole Sign''" and "house_system \<noteq> ''Equal''"
  shows "calculate_houses jd latitude longitude house_system
           = calculate_houses jd latitude longitude ''Equal''
     \<and> calculate_houses jd latitude longitude house_system
           = Inr (equal_cusps (houses_ascendant jd latitude longitude),
                  houses_ascendant jd latitude longitude)"
  using calculate_houses_quadrant [OF assms] calculate_houses_equal by simp

text \<open>
  Placidus is such a house system.
\<close>

theorem quadrant_houses_are_equal_houses_witness:
  "''Placidus'' \<noteq> ''Whole Sign'' \<and> ''Placidus'' \<noteq> ''Equal''
   \<and> calculate_houses 2451545 45 79.53938163 ''Placidus''
       = calculate_houses 2451545 45 79.53938163 ''Equal''"
proof -
  have a: "''Placidus'' \<noteq> ''Whole Sign''" and b: "''Placidus'' \<noteq> ''Equal''" by simp_all
  from quadrant_houses_are_equal_houses [OF a b, of 2451545 45 "79.53938163"] a b
  show ?thesis by blast
qed

lemma lst_at_east_longitude: "local_sidereal_time 2451545 east_longitude = 0"
  unfolding local_sidereal_time_def Let_def east_longitude_def
  by (simp add: py_mod_def)

lemma mc_at_east_longitude: "houses_mc 2451545 east_longitude = 0"
  by (simp add: houses_mc_def lst_at_east_longitude py_mod_def)

lemma sin_obliquity_pos: "0 < sin (radians obliquity_j2000)"
proof (rule sin_gt_zero)
  show "0 < radians obliquity_j2000" by (simp add: radians_def obliquity_j2000_def)
  have "radians obliquity_j2000 = pi * (234392911 / 1800000000)"
    by (simp add: radians_def obliquity_j2000_def)
  also have "\<dots> < pi * 1" by (rule mult_strict_left_mono) simp_all
  finally show "radians obliquity_j2000 < pi" by simp
qed

lemma ascendant_at_east_longitude:
  "houses_ascendant 2451545 45 east_longitude
     = py_mod (degrees (arctan (1 / (- sin (radians obliquity_j2000))) + pi)) 360"
proof -
  have r45: "radians 45 = pi / 4" by (simp add: radians_def)
  have r0: "radians 0 = 0" by (simp add: radians_def)
  have ob: "23.4392911 - 0.0130125 * ((2451545 - 2451545.0) / 36525)
      - 0.00000164 * ((2451545 - 2451545.0) / 36525) * ((2451545 - 2451545.0) / 36525)
      = obliquity_j2000"
    by (simp add: obliquity_j2000_def)
  have "houses_ascendant 2451545 45 east_longitude
      = py_mod (degrees (atan2 (cos 0) (- sin 0 * cos (radians obliquity_j2000)
          - tan (pi / 4) * sin (radians obliquity_j2000)))) 360"
    unfolding houses_ascendant_def Let_def lst_at_east_longitude ob r45 r0 ..
  also have "atan2 (cos 0) (- sin 0 * cos (radians obliquity_j2000)
          - tan (pi / 4) * sin (radians obliquity_j2000))
      = arctan (1 / (- sin (radians obliquity_j2000))) + pi"
    using sin_obliquity_pos by (simp add: tan_45 atan2_def)
  finally show ?thesis .
qed

lemma ascendant_at_east_longitude_bounds:
  "90 < houses_ascendant 2451545 45 east_longitude"
  "houses_ascendant 2451545 45 east_longitude < 180"
proof -
  let ?A = "arctan (1 / (- sin (radians obliquity_j2000))) + pi"
  have neg: "1 / (- sin (radians obliquity_j2000)) < 0" using sin_obliquity_pos by simp
  have lo: "pi / 2 < ?A" using arctan_lbound [of "1 / (- sin (radians obliquity_j2000))"] by simp
  have "arctan (1 / (- sin (radians obliquity_j2000))) < 0"
    using neg by (simp only: arctan_less_zero_iff)
  then have hi: "?A < pi" by simp
  have d_lo: "90 < degrees ?A"
  proof -
    have "90 * pi < ?A * 180" using lo by simp
    then have "90 < ?A * 180 / pi" by (simp add: pos_less_divide_eq)
    then show ?thesis by (simp only: degrees_def)
  qed
  have d_hi: "degrees ?A < 180"
  proof -
    have "?A * 180 < 180 * pi" using hi by simp
    then have "?A * 180 / pi < 180" by (simp add: pos_divide_less_eq)
    then show ?thesis by (simp only: degrees_def)
  qed
  have "py_mod (degrees ?A) 360 = degrees ?A"
    by (rule py_mod_id) (use d_lo d_hi in linarith)+
  then have asc: "houses_ascendant 2451545 45 east_longitude = degrees ?A"
    by (simp only: ascendant_at_east_longitude)
  show "90 < houses_ascendant 2451545 45 east_longitude" unfolding asc by (rule d_lo)
  show "houses_ascendant 2451545 45 east_longitude < 180" unfolding asc by (rule d_hi)
qed

lemma equal_cusps_4: "equal_cusps a 4 = Some (py_mod (a + 90) 360)"
  by (simp add: equal_cusps_def)

lemma equal_cusps_10: "equal_cusps a 10 = Some (py_mod (a + 270) 360)"
  by (simp add: equal_cusps_def)

text \<open>
  What the quadrant branch does return: houses 1 and 7 are the Ascendant and its opposite,
  houses 4 and 10 are the Ascendant plus 90 and plus 270 degrees, and house \<open>n + 6\<close> is
  the opposite of house \<open>n\<close> for \<open>n\<close> from 2 to 6.
\<close>

lemma quadrant_houses_true_part:
  assumes "house_system \<noteq> ''Whole Sign''" and "house_system \<noteq> ''Equal''"
  shows "\<exists>houses ascendant.
      calculate_houses jd latitude longitude house_system = Inr (houses, ascendant)
    \<and> ascendant = houses_ascendant jd latitude longitude
    \<and> houses 1 = Some ascendant
    \<and> houses 4 = Some (py_mod (ascendant + 90) 360)
    \<and> houses 7 = Some (py_mod (ascendant + 180) 360)
    \<and> houses 10 = Some (py_mod (ascendant + 270) 360)
    \<and> (\<forall>n v. 2 \<le> n \<and> n \<le> 6 \<and> houses n = Some v
           \<longrightarrow> houses (n + 6) = Some (py_mod (v + 180) 360))"
proof -
  let ?a = "houses_ascendant jd latitude longitude"
  note r = houses_ascendant_range [of jd latitude longitude]
  have opp: "equal_cusps ?a (n + 6) = Some (py_mod (v + 180) 360)"
    if "2 \<le> n" "n \<le> 6" "equal_cusps ?a n = Some v" for n v
  proof -
    from that have v: "v = py_mod (?a + 30 * real_of_int (n - 1)) 360"
      by (simp add: equal_cusps_def)
    have "py_mod (v + 180) 360 = py_mod (?a + (30 * real_of_int (n - 1) + 180)) 360"
      unfolding v by (rule opposite_cusp)
    also have "30 * real_of_int (n - 1) + 180 = 30 * real_of_int (n + 6 - 1)" by simp
    finally show ?thesis using that by (simp add: equal_cusps_def)
  qed
  have "equal_cusps ?a 1 = Some ?a" using r by (simp add: equal_cusps_def py_mod_id)
  moreover have "equal_cusps ?a 7 = Some (py_mod (?a + 180) 360)" by (simp add: equal_cusps_def)
  ultimately show ?thesis
    using calculate_houses_quadrant [OF assms, of jd latitude longitude] opp
    by (simp add: equal_cusps_4 equal_cusps_10)
qed

text \<open>
  C1 fails on the code: the loop over 2..6 stores the Ascendant plus 90 degrees under house
  4, over the IC the dictionary was built with, and the loop over 8..12 stores its opposite
  under house 10, over the Midheaven. At J2000.0, latitude 45 and the longitude where the
  local sidereal time is 0, the Midheaven is 0 and the Ascendant lies between 90 and 180
  degrees, so house 4 is not the IC (180) and house 10 is not the Midheaven.
\<close>

theorem quadrant_houses_overwrite_ic_and_mc:
  "(case calculate_houses 2451545 45 east_longitude ''Placidus'' of
      Inl e \<Rightarrow> False
    | Inr (houses, ascendant) \<Rightarrow>
        houses 4 = Some (py_mod (ascendant + 90) 360)
      \<and> houses 4 \<noteq> Some (py_mod (houses_mc 2451545 east_longitude + 180) 360)
      \<and> houses 10 = Some (py_mod (ascendant + 270) 360)
      \<and> houses 10 \<noteq> Some (houses_mc 2451545 east_longitude))"
proof -
  let ?a = "houses_ascendant 2451545 45 east_longitude"
  note b = ascendant_at_east_longitude_bounds
  have h: "calculate_houses 2451545 45 east_longitude ''Placidus'' = Inr (equal_cusps ?a, ?a)"
    by (rule calculate_houses_quadrant) simp_all
  have c4: "py_mod (?a + 90) 360 = ?a + 90"
    by (rule py_mod_id) (use b in linarith)+
  have "?a + 270 = (?a - 90) + 360 * real_of_int 1" by simp
  then have "py_mod (?a + 270) 360 = py_mod ((?a - 90) + 360 * real_of_int 1) 360"
    by (simp only:)
  also have "\<dots> = py_mod (?a - 90) 360" by (rule py_mod_shift) simp
  also have "\<dots> = ?a - 90" by (rule py_mod_id) (use b in linarith)+
  finally have c10: "py_mod (?a + 270) 360 = ?a - 90" .
  have ic: "py_mod (0 + 180) 360 = 180" by (simp add: py_mod_id)
  have n4: "?a + 90 \<noteq> 180" using b by linarith
  have n10: "?a - 90 \<noteq> 0" using b by linarith
  show ?thesis
    unfolding h
    by (simp only: sum.case prod.case equal_cusps_4 equal_cusps_10 mc_at_east_longitude c4 c10 ic
        option.inject n4 n10 not_False_eq_True simp_thms)
qed

section \<open>Properties of the day pillar\<close>

lemma julian_day_1993_01_15: "calculate_julian_day 1993 1 15 0 0 = 2449002.5"
  by (simp add: calculate_julian_day_def Let_def)

lemma julian_day_1994_01_15: "calculate_julian_day 1994 1 15 0 0 = 2449367.5"
  by (simp add: calculate_julian_day_def Let_def)

lemma four_pillars_year_1994_01_15: "four_pillars_year birth_1994_01_15 = 1993"
  by (simp add: four_pillars_year_def birth_1994_01_15_def)

lemma day_offset_1994_01_15: "four_pillars_day_offset birth_1994_01_15 = 42"
proof -
  have "four_pillars_day_offset birth_1994_01_15 = py_int (calculate_julian_day 1993 1 15 0 0) mod 60"
    unfolding four_pillars_day_offset_def Let_def four_pillars_year_1994_01_15
    by (simp add: birth_1994_01_15_def)
  also have "\<dots> = 42" by (simp add: julian_day_1993_01_15 py_int_def)
  finally show ?thesis .
qed

lemma spec_day_offset_1994_01_15: "spec_day_offset birth_1994_01_15 = 47"
proof -
  have "spec_day_offset birth_1994_01_15 = \<lfloor>calculate_julian_day 1994 1 15 0 0\<rfloor> mod 60"
    by (simp add: spec_day_offset_def birth_1994_01_15_def)
  also have "\<dots> = 47" by (simp add: julian_day_1994_01_15)
  finally show ?thesis .
qed

lemma pillar_42: "pillar 2 6 = Inr ((''Bing'', ''Yang Fire''), (''Wu'', ''Horse''))"
  by (simp add: pillar_def subscript_def heavenly_stems_def earthly_branches_def)

lemma pillar_47: "pillar 7 11 = Inr ((''Xin'', ''Yin Metal''), (''Hai'', ''Pig''))"
  by (simp add: pillar_def subscript_def heavenly_stems_def earthly_branches_def)

lemma four_pillars_1994_01_15:
  "calculate_four_pillars birth_1994_01_15
     = Inr \<lparr>fp_year = ((''Gui'', ''Yin Water''), (''You'', ''Rooster'')),
            fp_month = ((''Xin'', ''Yin Metal''), (''Yin'', ''Tiger'')),
            fp_day = ((''Bing'', ''Yang Fire''), (''Wu'', ''Horse'')),
            fp_hour = ((''Jia'', ''Yang Wood''), (''Wu'', ''Horse''))\<rparr>"
proof -
  have m: "dt_month birth_1994_01_15 = 1" and h: "dt_hour birth_1994_01_15 = 12"
    by (simp_all add: birth_1994_01_15_def)
  show ?thesis
    unfolding calculate_four_pillars_def Let_def four_pillars_year_1994_01_15
      day_offset_1994_01_15 m h
    by (simp add: pillar_def subscript_def heavenly_stems_def earthly_branches_def)
qed

lemma julian_day_midnight_nonneg:
  assumes "0 \<le> y" and "1 \<le> m" and "1 \<le> dd"
  shows "0 \<le> calculate_julian_day y m dd 0 0"
proof -
  define y1 where "y1 = (if m \<le> 2 then y - 1 else y)"
  define m1 where "m1 = (if m \<le> 2 then m + 12 else m)"
  define a where "a = \<lfloor>real_of_int y1 / 100\<rfloor>"
  have y1: "- 1 \<le> real_of_int y1" using assms by (simp add: y1_def)
  have m1: "0 \<le> real_of_int m1" using assms by (simp add: m1_def)
  define F1 where "F1 = real_of_int \<lfloor>365.25 * real_of_int (y1 + 4716)\<rfloor>"
  define F2 where "F2 = real_of_int \<lfloor>30.6001 * real_of_int (m1 + 1)\<rfloor>"
  define Q where "Q = real_of_int \<lfloor>real_of_int a / 4\<rfloor>"
  have "365.25 * real_of_int (y1 + 4716) - 1 \<le> F1" unfolding F1_def by linarith
  moreover have "365 * real_of_int y1 + 1722000 \<le> 365.25 * real_of_int (y1 + 4716) - 1"
    using y1 by simp
  ultimately have f1: "365 * real_of_int y1 + 1722000 \<le> F1" by (rule order_trans [rotated])
  have "0 \<le> 30.6001 * real_of_int (m1 + 1)" using m1 by simp
  then have f2: "0 \<le> F2" unfolding F2_def by simp
  have a_le: "real_of_int a \<le> real_of_int y1 / 100" unfolding a_def by (rule of_int_floor_le)
  have q: "real_of_int a / 4 - 1 \<le> Q" unfolding Q_def by linarith
  have d: "1 \<le> real_of_int dd" using assms by simp
  have pos: "0 \<le> F1 + F2 + real_of_int dd + (2 - real_of_int a + Q) - 3049 / 2"
    using f1 f2 a_le q d y1 by linarith
  have "calculate_julian_day y m dd 0 0
      = F1 + F2 + real_of_int dd + (2 - real_of_int a + Q) - 3049 / 2"
    by (simp add: calculate_julian_day_def Let_def y1_def m1_def a_def F1_def F2_def Q_def)
  with pos show ?thesis by simp
qed

lemma four_pillars_year_jan_feb:
  assumes "valid_datetime d" and "dt_month d \<le> 2"
  shows "four_pillars_year d = dt_year d - 1"
proof -
  have "dt_day d \<le> days_in_month (dt_year d) (dt_month d)" and "1 \<le> dt_month d"
    using assms by (simp_all add: valid_datetime_def)
  moreover have "days_in_month (dt_year d) (dt_month d) \<le> 31" by (simp add: days_in_month_def)
  ultimately have "dt_day d < 35" and "dt_month d = 1 \<or> dt_month d = 2"
    using assms(2) by linarith+
  then show ?thesis by (auto simp: four_pillars_year_def)
qed

lemma four_pillars_year_from_march:
  assumes "3 \<le> dt_month d"
  shows "four_pillars_year d = dt_year d"
  using assms by (simp add: four_pillars_year_def)

text \<open>
  From March on the working year is the year of the date, and the day offset is the one
  of the date itself.
\<close>

lemma day_offset_from_march:
  assumes "valid_datetime d" and "3 \<le> dt_month d"
  shows "four_pillars_day_offset d = spec_day_offset d"
proof -
  have "0 \<le> calculate_julian_day (dt_year d) (dt_month d) (dt_day d) 0 0"
    using assms by (intro julian_day_midnight_nonneg) (simp_all add: valid_datetime_def)
  then show ?thesis
    by (simp add: four_pillars_day_offset_def spec_day_offset_def
        four_pillars_year_from_march [OF assms(2)] py_int_def)
qed

text \<open>
  In January and February the day offset is the one of the same day a year earlier.
\<close>

lemma day_offset_jan_feb:
  assumes "valid_datetime d" and "dt_month d \<le> 2"
  shows "four_pillars_day_offset d
     = \<lfloor>calculate_julian_day (dt_year d - 1) (dt_month d) (dt_day d) 0 0\<rfloor> mod 60"
proof -
  have "0 \<le> calculate_julian_day (dt_year d - 1) (dt_month d) (dt_day d) 0 0"
    using assms by (intro julian_day_midnight_nonneg) (simp_all add: valid_datetime_def)
  then show ?thesis
    by (simp add: four_pillars_day_offset_def four_pillars_year_jan_feb [OF assms] py_int_def)
qed

text \<open>
  C2 fails on the code: the Julian Day of the day pillar is computed from the year after
  the Chinese New Year adjustment. For 1994-01-15 the code takes the Julian Day of
  1993-01-15, whose day offset is 42, where the date itself has the offset 47; the day
  pillars differ.
\<close>

theorem four_pillars_day_pillar_from_adjusted_year:
  "map_sum id fp_day (calculate_four_pillars birth_1994_01_15)
     = Inr ((''Bing'', ''Yang Fire''), (''Wu'', ''Horse''))
   \<and> four_pillars_day_offset birth_1994_01_15 = 42
   \<and> four_pillars_day_offset birth_1994_01_15
       = py_int (calculate_julian_day 1993 1 15 0 0) mod 60
   \<and> spec_day_offset birth_1994_01_15 = 47
   \<and> spec_day_pillar birth_1994_01_15 = Inr ((''Xin'', ''Yin Metal''), (''Hai'', ''Pig''))"
  by (simp add: four_pillars_1994_01_15 day_offset_1994_01_15 spec_day_offset_1994_01_15
      spec_day_pillar_def pillar_47 julian_day_1993_01_15 py_int_def)

section \<open>The sidereal projection in double precision\<close>

lemma binade_eqI:
  assumes "2 powr real_of_int e \<le> \<bar>x\<bar>" and "\<bar>x\<bar> < 2 powr real_of_int (e + 1)"
  shows "binade x = e"
proof -
  have pos: "0 < \<bar>x\<bar>" using assms(1) by (smt (verit) powr_gt_zero)
  have "\<lfloor>log 2 \<bar>x\<bar>\<rfloor> = e \<longleftrightarrow> 2 powr real_of_int e \<le> \<bar>x\<bar> \<and> \<bar>x\<bar> < 2 powr real_of_int (e + 1)"
    using floor_log_eq_powr_iff [OF pos, of 2 e] by simp
  then show ?thesis using assms by (simp add: binade_def)
qed

lemma double_in_binade:
  assumes "2 powr real_of_int e \<le> \<bar>x\<bar>" and "\<bar>x\<bar> < 2 powr real_of_int (e + 1)"
  shows "double x = 2 powr real_of_int (e - 52)
             * real_of_int (round_half_even (x / 2 powr real_of_int (e - 52)))"
proof -
  have "x \<noteq> 0" using assms(1) by (smt (verit) powr_gt_zero)
  then show ?thesis by (simp add: double_def binade_eqI [OF assms])
qed

lemma double_of_23_85: "double 23.85 = double_23_85"
proof -
  have "double 23.85 = 2 powr real_of_int (4 - 52)
             * real_of_int (round_half_even (23.85 / 2 powr real_of_int (4 - 52)))"
    by (rule double_in_binade) simp_all
  also have "\<dots> = 6713178194549146 / 2 ^ 48"
    by (simp add: powr_neg_numeral round_half_even_def Let_def)
  finally show ?thesis by (simp only: double_23_85_def)
qed

lemma double_zero: "double 0 = 0"
  by (simp add: double_def)

lemma double_double_23_85: "double double_23_85 = double_23_85"
proof -
  have "double double_23_85 = 2 powr real_of_int (4 - 52)
             * real_of_int (round_half_even (double_23_85 / 2 powr real_of_int (4 - 52)))"
    by (rule double_in_binade) (simp_all add: double_23_85_def)
  also have "\<dots> = double_23_85"
    by (simp add: powr_neg_numeral round_half_even_def Let_def double_23_85_def)
  finally show ?thesis .
qed

lemma float_mod_small_negative:
  assumes "- m < x" and "x < 0"
  shows "float_mod x m = double (x + m)"
proof -
  have m: "0 < m" using assms by linarith
  have "- 1 < x / m" using assms m by (simp add: pos_less_divide_eq)
  moreover have "x / m < 0" using assms m by (simp add: divide_neg_pos)
  ultimately have "\<lceil>x / m\<rceil> = 0" by (simp add: ceiling_eq_iff)
  then have "py_int (x / m) = 0" using \<open>x / m < 0\<close> by (simp add: py_int_def)
  then show ?thesis using assms m by (simp add: float_mod_def Let_def)
qed

lemma float_mod_small_nonneg:
  assumes "0 \<le> x" and "x < m"
  shows "float_mod x m = x"
proof -
  have m: "0 < m" using assms by linarith
  have "0 \<le> x / m" using assms m by simp
  moreover have "x / m < 1" using assms m by simp
  ultimately have "\<lfloor>x / m\<rfloor> = 0" by (simp add: floor_eq_iff)
  then have "py_int (x / m) = 0" using \<open>0 \<le> x / m\<close> by (simp add: py_int_def)
  then show ?thesis using assms m by (simp add: float_mod_def Let_def)
qed

lemma ayanamsa_double_j2000: "calculate_lahiri_ayanamsa_double 2451545 = double_23_85"
proof -
  have z: "double ((2451545 :: real) - 2451545.0) = 0" by (simp add: double_zero)
  have q: "double (0 / 36525) = 0" by (simp add: double_zero)
  have m1: "double (double 50.29 * 0) = 0" by (simp add: double_zero)
  have d1: "double (0 / 3600) = 0" by (simp add: double_zero)
  have m2: "double (double 0.000279 * 0) = 0" by (simp add: double_zero)
  have m3: "double (0 * 0) = 0" by (simp add: double_zero)
  have s1: "double (double_23_85 + 0) = double_23_85" by (simp add: double_double_23_85)
  have s2: "double (double_23_85 - 0) = double_23_85" by (simp add: double_double_23_85)
  show ?thesis
    unfolding calculate_lahiri_ayanamsa_double_def Let_def z q m1 d1 m2 m3 double_of_23_85 s1 s2 ..
qed

lemma double_minus_ulp: "double (double_below_23_85 - double_23_85) = - (1 / 2 ^ 48)"
proof -
  have v: "double_below_23_85 - double_23_85 = - (1 / 2 ^ 48)"
    by (simp add: double_below_23_85_def double_23_85_def)
  have "double (- (1 / 2 ^ 48)) = 2 powr real_of_int (- 48 - 52)
             * real_of_int (round_half_even (- (1 / 2 ^ 48) / 2 powr real_of_int (- 48 - 52)))"
    by (rule double_in_binade) (simp_all add: powr_neg_numeral)
  also have "\<dots> = - (1 / 2 ^ 48)"
    by (simp add: powr_neg_numeral round_half_even_def Let_def)
  finally show ?thesis by (simp only: v)
qed

lemma double_just_below_360: "double (- (1 / 2 ^ 48) + 360) = 360"
proof -
  have "double (- (1 / 2 ^ 48) + 360) = 2 powr real_of_int (8 - 52)
             * real_of_int (round_half_even ((- (1 / 2 ^ 48) + 360) / 2 powr real_of_int (8 - 52)))"
    by (rule double_in_binade) simp_all
  also have "\<dots> = 360"
    by (simp add: powr_neg_numeral round_half_even_def Let_def)
  finally show ?thesis .
qed

lemma float_mod_tiny_negative: "float_mod (- (1 / 2 ^ 48)) 360 = 360"
proof -
  have "float_mod (- (1 / 2 ^ 48)) 360 = double (- (1 / 2 ^ 48) + 360)"
    by (rule float_mod_small_negative) simp_all
  then show ?thesis by (simp only: double_just_below_360)
qed

text \<open>
  C3 fails on the code: in double precision the sidereal longitude can be exactly 360.
  At J2000.0 the ayanamsa is the double nearest to 23.85; for a tropical longitude one unit
  in the last place below it, the difference is \<open>- 2 ^ -48\<close>, its remainder is negative, and
  the sum of the remainder and 360 rounds to 360.
\<close>

theorem sidereal_longitude_reaches_360:
  "fst (calculate_vedic_positions_double [''Sun'' \<mapsto> double_below_23_85] 2451545) ''Sun''
     = Some 360
   \<and> 0 \<le> double_below_23_85 \<and> double_below_23_85 < 360
   \<and> double double_below_23_85 = double_below_23_85"
proof -
  have "double double_below_23_85 = 2 powr real_of_int (4 - 52)
             * real_of_int (round_half_even (double_below_23_85 / 2 powr real_of_int (4 - 52)))"
    by (rule double_in_binade) (simp_all add: double_below_23_85_def)
  also have "\<dots> = double_below_23_85"
    by (simp add: powr_neg_numeral round_half_even_def Let_def double_below_23_85_def)
  finally have r: "double double_below_23_85 = double_below_23_85" .
  have b: "0 \<le> double_below_23_85 \<and> double_below_23_85 < 360"
    by (simp add: double_below_23_85_def)
  have "fst (calculate_vedic_positions_double [''Sun'' \<mapsto> double_below_23_85] 2451545) ''Sun''
     = Some (float_mod (double (double_below_23_85 - double_23_85)) 360)"
    by (simp add: calculate_vedic_positions_double_def Let_def ayanamsa_double_j2000)
  also have "\<dots> = Some 360"
    by (simp only: double_minus_ulp float_mod_tiny_negative)
  finally show ?thesis using r b by blast
qed

lemma round_half_even_error: "\<bar>real_of_int (round_half_even y) - y\<bar> \<le> 1 / 2"
proof -
  have "real_of_int \<lfloor>y\<rfloor> \<le> y" and "y < real_of_int \<lfloor>y\<rfloor> + 1" by linarith+
  then show ?thesis by (auto simp: round_half_even_def Let_def)
qed

lemma binade_powr_le:
  assumes "x \<noteq> 0"
  shows "2 powr real_of_int (binade x) \<le> \<bar>x\<bar>"
proof -
  have "real_of_int (binade x) \<le> log 2 \<bar>x\<bar>" unfolding binade_def by (rule of_int_floor_le)
  then have "2 powr real_of_int (binade x) \<le> 2 powr log 2 \<bar>x\<bar>" by simp
  also have "\<dots> = \<bar>x\<bar>" using assms by simp
  finally show ?thesis .
qed

text \<open>
  The relative error of rounding is at most \<open>2 ^ -53\<close>.
\<close>

lemma double_error: "\<bar>double x - x\<bar> \<le> \<bar>x\<bar> / 2 ^ 53"
proof (cases "x = 0")
  case True
  then show ?thesis by (simp add: double_def)
next
  case False
  define u where "u = 2 powr real_of_int (binade x - 52)"
  define k where "k = real_of_int (round_half_even (x / u))"
  have u: "0 < u" by (simp add: u_def)
  have d: "double x = u * k" using False by (simp add: double_def u_def k_def)
  have "\<bar>double x - x\<bar> = \<bar>u * (k - x / u)\<bar>" using u by (simp add: d algebra_simps)
  also have "\<dots> = u * \<bar>k - x / u\<bar>" using u by (simp add: abs_mult)
  also have "\<dots> \<le> u * (1 / 2)"
    using u round_half_even_error [of "x / u"] unfolding k_def by (intro mult_left_mono) auto
  also have "u * (1 / 2) = 2 powr real_of_int (binade x) / 2 ^ 53"
  proof -
    have "u = 2 powr (real_of_int (binade x) - 52)" by (simp add: u_def)
    also have "\<dots> = 2 powr real_of_int (binade x) / 2 powr 52" by (rule powr_diff)
    also have "2 powr (52 :: real) = 2 ^ 52" by simp
    finally show ?thesis by simp
  qed
  also have "\<dots> \<le> \<bar>x\<bar> / 2 ^ 53"
    using binade_powr_le [OF False] by (simp add: divide_right_mono)
  finally show ?thesis .
qed

lemma double_error_360:
  assumes "\<bar>x\<bar> \<le> 360"
  shows "\<bar>double x - x\<bar> \<le> 360 / 2 ^ 53"
proof -
  have "\<bar>x\<bar> / 2 ^ 53 \<le> 360 / 2 ^ 53" using assms by (simp add: divide_right_mono)
  with double_error [of x] show ?thesis by linarith
qed

lemma round_trip_error:
  assumes p: "0 \<le> p" "p < 360" and ay: "1 \<le> ay" "ay \<le> 359"
  shows "\<bar>float_mod (double (p - float_mod (double (p - ay)) 360)) 360 - ay\<bar>
           \<le> 4 * (360 / 2 ^ 53)"
proof -
  define E :: real where "E = 360 / 2 ^ 53"
  have E: "0 < E" "E < 1 / 10" by (simp_all add: E_def)
  define a where "a = double (p - ay)"
  have a: "\<bar>a - (p - ay)\<bar> \<le> E"
    unfolding a_def E_def by (rule double_error_360) (use p ay in linarith)
  show ?thesis
  proof (cases "0 \<le> a")
    case True
    have s: "float_mod a 360 = a"
      by (rule float_mod_small_nonneg) (use True a p ay E in linarith)+
    define d where "d = double (p - a)"
    have d: "\<bar>d - (p - a)\<bar> \<le> E"
      unfolding d_def E_def by (rule double_error_360) (use a p ay E in linarith)
    have r: "float_mod d 360 = d"
      by (rule float_mod_small_nonneg) (use d a p ay E in linarith)+
    have "\<bar>d - ay\<bar> \<le> 4 * E" using d a E by linarith
    then show ?thesis unfolding E_def a_def [symmetric] s d_def [symmetric] r .
  next
    case False
    have s: "float_mod a 360 = double (a + 360)"
      by (rule float_mod_small_negative) (use False a p ay E in linarith)+
    define s' where "s' = double (a + 360)"
    have s': "\<bar>s' - (a + 360)\<bar> \<le> E"
      unfolding s'_def E_def by (rule double_error_360) (use False a p ay E in linarith)
    define d where "d = double (p - s')"
    have d: "\<bar>d - (p - s')\<bar> \<le> E"
      unfolding d_def E_def by (rule double_error_360) (use s' a p ay E in linarith)
    have r: "float_mod d 360 = double (d + 360)"
      by (rule float_mod_small_negative) (use d s' a p ay E in linarith)+
    define r' where "r' = double (d + 360)"
    have r': "\<bar>r' - (d + 360)\<bar> \<le> E"
      unfolding r'_def E_def by (rule double_error_360) (use d s' a p ay E in linarith)
    have "\<bar>r' - ay\<bar> \<le> 4 * E" using r' d s' a E by linarith
    then show ?thesis
      unfolding E_def a_def [symmetric] s s'_def [symmetric] d_def [symmetric] r r'_def [symmetric] .
  qed
qed

text \<open>
  C4, amended. In double precision, for every tropical longitude in [0, 360) and every
  Julian Day whose ayanamsa lies between 1 and 359, the sidereal longitude of the body is
  there, the ayanamsa returned is that of the Julian Day, and (tropical - sidereal) % 360
  differs from the ayanamsa by at most four roundings of numbers below 360, which is
  \<open>4 * 360 / 2 ^ 53\<close>, about 1.6e-13.
\<close>

theorem vedic_round_trip_within_rounding:
  assumes "tropical_positions body = Some p" and "0 \<le> p" and "p < 360"
    and "1 \<le> calculate_lahiri_ayanamsa_double jd"
    and "calculate_lahiri_ayanamsa_double jd \<le> 359"
  shows "\<exists>s. fst (calculate_vedic_positions_double tropical_positions jd) body = Some s
     \<and> snd (calculate_vedic_positions_double tropical_positions jd)
         = calculate_lahiri_ayanamsa_double jd
     \<and> \<bar>float_mod (double (p - s)) 360 - calculate_lahiri_ayanamsa_double jd\<bar>
         \<le> 4 * (360 / 2 ^ 53)"
  using assms(1) round_trip_error [OF assms(2-5)]
  by (simp add: calculate_vedic_positions_double_def Let_def)

lemma double_100_minus_ayanamsa: "double (100 - double_23_85) = double_76_15"
proof -
  have "double (100 - double_23_85) = 2 powr real_of_int (6 - 52)
      * real_of_int (round_half_even ((100 - double_23_85) / 2 powr real_of_int (6 - 52)))"
    by (rule double_in_binade) (simp_all add: double_23_85_def)
  also have "\<dots> = double_76_15"
    by (simp add: powr_neg_numeral round_half_even_def Let_def double_23_85_def double_76_15_def)
  finally show ?thesis .
qed

lemma double_100_minus_sidereal: "double (100 - double_76_15) = double_round_trip"
proof -
  have "double (100 - double_76_15) = 2 powr real_of_int (4 - 52)
      * real_of_int (round_half_even ((100 - double_76_15) / 2 powr real_of_int (4 - 52)))"
    by (rule double_in_binade) (simp_all add: double_76_15_def)
  also have "\<dots> = double_round_trip"
    by (simp add: powr_neg_numeral round_half_even_def Let_def double_76_15_def
        double_round_trip_def)
  finally show ?thesis .
qed

lemma sidereal_of_100_at_j2000:
  "fst (calculate_vedic_positions_double [''Sun'' \<mapsto> 100] 2451545) ''Sun'' = Some double_76_15"
proof -
  have "float_mod double_76_15 360 = double_76_15"
    by (rule float_mod_small_nonneg) (simp_all add: double_76_15_def)
  then show ?thesis
    by (simp add: calculate_vedic_positions_double_def Let_def ayanamsa_double_j2000
        double_100_minus_ayanamsa)
qed

text \<open>
  C4 as stated fails: at J2000.0 and the tropical longitude 100 the sidereal longitude is
  the double 76.15000000000000568..., and (100 - sidereal) % 360 is
  23.849999999999994..., two units in the last place below the ayanamsa.
\<close>

theorem vedic_round_trip_double_counterexample:
  "fst (calculate_vedic_positions_double [''Sun'' \<mapsto> 100] 2451545) ''Sun'' = Some double_76_15
   \<and> snd (calculate_vedic_positions_double [''Sun'' \<mapsto> 100] 2451545) = double_23_85
   \<and> float_mod (double (100 - double_76_15)) 360 = double_round_trip
   \<and> double_round_trip \<noteq> double_23_85"
proof -
  have "float_mod double_round_trip 360 = double_round_trip"
    by (rule float_mod_small_nonneg) (simp_all add: double_round_trip_def)
  then have "float_mod (double (100 - double_76_15)) 360 = double_round_trip"
    by (simp only: double_100_minus_sidereal)
  moreover have "snd (calculate_vedic_positions_double [''Sun'' \<mapsto> 100] 2451545) = double_23_85"
    by (simp add: calculate_vedic_positions_double_def Let_def ayanamsa_double_j2000)
  moreover have "double_round_trip \<noteq> double_23_85"
    by (simp add: double_round_trip_def double_23_85_def)
  ultimately show ?thesis using sidereal_of_100_at_j2000 by blast
qed

text \<open>
  At J2000.0 and the tropical longitude 100 the hypotheses hold.
\<close>

theorem vedic_round_trip_within_rounding_witness:
  "[''Sun'' \<mapsto> (100 :: real)] ''Sun'' = Some 100 \<and> (0 :: real) \<le> 100 \<and> (100 :: real) < 360
   \<and> 1 \<le> calculate_lahiri_ayanamsa_double 2451545
   \<and> calculate_lahiri_ayanamsa_double 2451545 \<le> 359
   \<and> \<bar>float_mod (double (100 - double_76_15)) 360 - calculate_lahiri_ayanamsa_double 2451545\<bar>
       \<le> 4 * (360 / 2 ^ 53)"
proof -
  have h1: "[''Sun'' \<mapsto> (100 :: real)] ''Sun'' = Some 100" by simp
  have h2: "(0 :: real) \<le> 100" and h3: "(100 :: real) < 360" by simp_all
  have h4: "1 \<le> calculate_lahiri_ayanamsa_double 2451545"
    and h5: "calculate_lahiri_ayanamsa_double 2451545 \<le> 359"
    by (simp_all add: ayanamsa_double_j2000 double_23_85_def)
  from vedic_round_trip_within_rounding
    [of "[''Sun'' \<mapsto> 100]" "''Sun''" 100 2451545, OF h1 h2 h3 h4 h5]
  obtain s where s: "fst (calculate_vedic_positions_double [''Sun'' \<mapsto> 100] 2451545) ''Sun'' = Some s"
    and e: "\<bar>float_mod (double (100 - s)) 360 - calculate_lahiri_ayanamsa_double 2451545\<bar>
       \<le> 4 * (360 / 2 ^ 53)"
    by blast
  from s sidereal_of_100_at_j2000 have "s = double_76_15" by (simp only: option.inject)
  with e h1 h2 h3 h4 h5 show ?thesis by blast
qed

section \<open>The ayanamsa in double precision\<close>

text \<open>
  The Julian Day that follows J2000.0 among the doubles is \<open>2451545 + 2 ^ -31\<close>; its
  ayanamsa is the same double as that of J2000.0, the increase of about 1.8e-16 being lost
  when it is added to 23.85.
\<close>

lemma ayanamsa_double_next_jd:
  "calculate_lahiri_ayanamsa_double (2451545 + 1 / 2 ^ 31) = double_23_85"
proof -
  define c1 :: real where "c1 = 7077688289389445 / 2 ^ 47"
  define c2 :: real where "c2 = 5146641596564965 / 2 ^ 64"
  define t :: real where "t = 8080709245156819 / 2 ^ 99"
  define g :: real where "g = 3174834905772941 / 2 ^ 92"
  define h :: real where "h = 7224513207803315 / 2 ^ 105"
  define k :: real where "k = 4617252617008645 / 2 ^ 110"
  define q :: real where "q = 8284634291807763 / 2 ^ 157"
  have x: "(2451545 + 1 / 2 ^ 31 :: real) - 2451545.0 = 1 / 2 ^ 31" by simp
  have u: "double (1 / 2 ^ 31) = 1 / 2 ^ 31"
  proof -
    have "double (1 / 2 ^ 31) = 2 powr real_of_int (- 31 - 52)
        * real_of_int (round_half_even ((1 / 2 ^ 31) / 2 powr real_of_int (- 31 - 52)))"
      by (rule double_in_binade) (simp_all add: powr_neg_numeral )
    also have "\<dots> = 1 / 2 ^ 31"
      by (simp add: powr_neg_numeral round_half_even_def Let_def )
    finally show ?thesis .
  qed
  have tt: "double (1 / 2 ^ 31 / 36525) = t"
  proof -
    have "double (1 / 2 ^ 31 / 36525) = 2 powr real_of_int (- 47 - 52)
        * real_of_int (round_half_even ((1 / 2 ^ 31 / 36525) / 2 powr real_of_int (- 47 - 52)))"
      by (rule double_in_binade) (simp_all add: powr_neg_numeral t_def)
    also have "\<dots> = t"
      by (simp add: powr_neg_numeral round_half_even_def Let_def t_def)
    finally show ?thesis .
  qed
  have cc1: "double (50.29) = c1"
  proof -
    have "double (50.29) = 2 powr real_of_int (5 - 52)
        * real_of_int (round_half_even ((50.29) / 2 powr real_of_int (5 - 52)))"
      by (rule double_in_binade) (simp_all add: powr_neg_numeral c1_def)
    also have "\<dots> = c1"
      by (simp add: powr_neg_numeral round_half_even_def Let_def c1_def)
    finally show ?thesis .
  qed
  have gg: "double (c1 * t) = g"
  proof -
    have "double (c1 * t) = 2 powr real_of_int (- 41 - 52)
        * real_of_int (round_half_even ((c1 * t) / 2 powr real_of_int (- 41 - 52)))"
      by (rule double_in_binade) (simp_all add: powr_neg_numeral c1_def t_def g_def)
    also have "\<dots> = g"
      by (simp add: powr_neg_numeral round_half_even_def Let_def c1_def t_def g_def)
    finally show ?thesis .
  qed
  have hh: "double (g / 3600) = h"
  proof -
    have "double (g / 3600) = 2 powr real_of_int (- 53 - 52)
        * real_of_int (round_half_even ((g / 3600) / 2 powr real_of_int (- 53 - 52)))"
      by (rule double_in_binade) (simp_all add: powr_neg_numeral g_def h_def)
    also have "\<dots> = h"
      by (simp add: powr_neg_numeral round_half_even_def Let_def g_def h_def)
    finally show ?thesis .
  qed
  have ss: "double (double_23_85 + h) = double_23_85"
  proof -
    have "double (double_23_85 + h) = 2 powr real_of_int (4 - 52)
        * real_of_int (round_half_even ((double_23_85 + h) / 2 powr real_of_int (4 - 52)))"
      by (rule double_in_binade) (simp_all add: powr_neg_numeral double_23_85_def h_def)
    also have "\<dots> = double_23_85"
      by (simp add: powr_neg_numeral round_half_even_def Let_def double_23_85_def h_def)
    finally show ?thesis .
  qed
  have cc2: "double (0.000279) = c2"
  proof -
    have "double (0.000279) = 2 powr real_of_int (- 12 - 52)
        * real_of_int (round_half_even ((0.000279) / 2 powr real_of_int (- 12 - 52)))"
      by (rule double_in_binade) (simp_all add: powr_neg_numeral c2_def)
    also have "\<dots> = c2"
      by (simp add: powr_neg_numeral round_half_even_def Let_def c2_def)
    finally show ?thesis .
  qed
  have kk: "double (c2 * t) = k"
  proof -
    have "double (c2 * t) = 2 powr real_of_int (- 58 - 52)
        * real_of_int (round_half_even ((c2 * t) / 2 powr real_of_int (- 58 - 52)))"
      by (rule double_in_binade) (simp_all add: powr_neg_numeral c2_def t_def k_def)
    also have "\<dots> = k"
      by (simp add: powr_neg_numeral round_half_even_def Let_def c2_def t_def k_def)
    finally show ?thesis .
  qed
  have qq: "double (k * t) = q"
  proof -
    have "double (k * t) = 2 powr real_of_int (- 105 - 52)
        * real_of_int (round_half_even ((k * t) / 2 powr real_of_int (- 105 - 52)))"
      by (rule double_in_binade) (simp_all add: powr_neg_numeral k_def t_def q_def)
    also have "\<dots> = q"
      by (simp add: powr_neg_numeral round_half_even_def Let_def k_def t_def q_def)
    finally show ?thesis .
  qed
  have aa: "double (double_23_85 - q) = double_23_85"
  proof -
    have "double (double_23_85 - q) = 2 powr real_of_int (4 - 52)
        * real_of_int (round_half_even ((double_23_85 - q) / 2 powr real_of_int (4 - 52)))"
      by (rule double_in_binade) (simp_all add: powr_neg_numeral double_23_85_def q_def)
    also have "\<dots> = double_23_85"
      by (simp add: powr_neg_numeral round_half_even_def Let_def double_23_85_def q_def)
    finally show ?thesis .
  qed
  show ?thesis
    unfolding calculate_lahiri_ayanamsa_double_def Let_def x u tt cc1 gg hh double_of_23_85 ss
      cc2 kk qq aa ..
qed

lemma double_error_bound:
  assumes "\<bar>x\<bar> \<le> B"
  shows "\<bar>double x - x\<bar> \<le> B / 2 ^ 53"
proof -
  have "\<bar>x\<bar> / 2 ^ 53 \<le> B / 2 ^ 53" using assms by (simp add: divide_right_mono)
  with double_error [of x] show ?thesis by linarith
qed

lemma abs_mult_le:
  fixes a b :: real
  assumes "\<bar>a\<bar> \<le> A" and "\<bar>b\<bar> \<le> B"
  shows "\<bar>a * b\<bar> \<le> A * B"
proof -
  have "\<bar>a * b\<bar> = \<bar>a\<bar> * \<bar>b\<bar>" by (rule abs_mult)
  also have "\<dots> \<le> A * B" using assms by (intro mult_mono) auto
  finally show ?thesis .
qed

lemma product_error:
  fixes a b a0 b0 :: real
  assumes "\<bar>a - a0\<bar> \<le> ea" and "\<bar>b\<bar> \<le> B" and "\<bar>a0\<bar> \<le> A0" and "\<bar>b - b0\<bar> \<le> eb"
  shows "\<bar>a * b - a0 * b0\<bar> \<le> ea * B + A0 * eb"
proof -
  have "a * b - a0 * b0 = (a - a0) * b + a0 * (b - b0)" by (simp add: algebra_simps)
  then have "\<bar>a * b - a0 * b0\<bar> \<le> \<bar>(a - a0) * b\<bar> + \<bar>a0 * (b - b0)\<bar>" by simp
  also have "\<dots> \<le> ea * B + A0 * eb"
    using abs_mult_le [OF assms(1,2)] abs_mult_le [OF assms(3,4)] by linarith
  finally show ?thesis .
qed

text \<open>
  Within 20 Julian centuries of J2000.0 the ayanamsa computed in double precision differs
  from the exact polynomial by at most \<open>80 / 2 ^ 53\<close>, about 8.9e-15: the errors of the
  three literals and of the eight operations, carried through.
\<close>

lemma ayanamsa_double_error:
  assumes "\<bar>jd - 2451545\<bar> \<le> 730500"
  shows "\<bar>calculate_lahiri_ayanamsa_double jd - calculate_lahiri_ayanamsa jd\<bar> \<le> 80 / 2 ^ 53"
proof -
  define eps :: real where "eps = 1 / 2 ^ 53"
  have eps: "0 < eps" "eps < 1 / 1000000000000000" by (simp_all add: eps_def)
  define x where "x = jd - 2451545"
  define \<tau> where "\<tau> = x / 36525"
  have x: "\<bar>x\<bar> \<le> 730500" using assms by (simp add: x_def)
  have \<tau>: "\<bar>\<tau>\<bar> \<le> 20" using x by (simp add: \<tau>_def)
  define u where "u = double x"
  have "\<bar>u - x\<bar> \<le> 730500 / 2 ^ 53" unfolding u_def by (rule double_error_bound [OF x])
  then have ue: "\<bar>u - x\<bar> \<le> 730500 * eps" by (simp add: eps_def)
  have ub: "\<bar>u / 36525\<bar> \<le> 20001 / 1000" using ue x eps by simp
  define t where "t = double (u / 36525)"
  have "\<bar>t - u / 36525\<bar> \<le> (20001 / 1000) / 2 ^ 53"
    unfolding t_def by (rule double_error_bound [OF ub])
  then have "\<bar>t - u / 36525\<bar> \<le> 20001 / 1000 * eps" by (simp add: eps_def)
  moreover have "\<bar>u / 36525 - \<tau>\<bar> \<le> 20 * eps" using ue by (simp add: \<tau>_def)
  ultimately have te: "\<bar>t - \<tau>\<bar> \<le> 41 * eps" using eps by linarith
  have tb: "\<bar>t\<bar> \<le> 20001 / 1000" using te \<tau> eps by linarith
  define c1 where "c1 = double 50.29"
  have "\<bar>c1 - 50.29\<bar> \<le> 50.29 / 2 ^ 53" unfolding c1_def by (rule double_error_bound) simp
  then have c1e: "\<bar>c1 - 5029 / 100\<bar> \<le> 5029 / 100 * eps" by (simp add: eps_def)
  have c1b: "\<bar>c1\<bar> \<le> 503 / 10" using c1e eps by linarith
  define g where "g = double (c1 * t)"
  have gb0: "\<bar>c1 * t\<bar> \<le> 503 / 10 * (20001 / 1000)" by (rule abs_mult_le [OF c1b tb])
  have "\<bar>g - c1 * t\<bar> \<le> (503 / 10 * (20001 / 1000)) / 2 ^ 53"
    unfolding g_def by (rule double_error_bound [OF gb0])
  then have g1: "\<bar>g - c1 * t\<bar> \<le> 1007 * eps" using eps by (simp add: eps_def)
  have "\<bar>c1 * t - 5029 / 100 * \<tau>\<bar> \<le> 5029 / 100 * eps * (20001 / 1000) + 5029 / 100 * (41 * eps)"
    by (rule product_error [OF c1e tb _ te]) simp
  then have g2: "\<bar>c1 * t - 5029 / 100 * \<tau>\<bar> \<le> 3068 * eps" using eps by simp
  have ge: "\<bar>g - 5029 / 100 * \<tau>\<bar> \<le> 4100 * eps" using g1 g2 eps by linarith
  have gb: "\<bar>g / 3600\<bar> \<le> 28 / 100" using ge \<tau> eps by simp
  define h where "h = double (g / 3600)"
  have "\<bar>h - g / 3600\<bar> \<le> (28 / 100) / 2 ^ 53" unfolding h_def by (rule double_error_bound [OF gb])
  then have h1: "\<bar>h - g / 3600\<bar> \<le> 28 / 100 * eps" by (simp add: eps_def)
  have h2: "\<bar>g / 3600 - 5029 / 100 * \<tau> / 3600\<bar> \<le> 12 / 10 * eps" using ge eps by linarith
  have he: "\<bar>h - 5029 / 100 * \<tau> / 3600\<bar> \<le> 2 * eps" using h1 h2 eps by linarith
  have hb: "\<bar>h\<bar> \<le> 29 / 100" using he \<tau> eps by simp
  define c0 where "c0 = double 23.85"
  have "\<bar>c0 - 23.85\<bar> \<le> 23.85 / 2 ^ 53" unfolding c0_def by (rule double_error_bound) simp
  then have c0e: "\<bar>c0 - 2385 / 100\<bar> \<le> 2385 / 100 * eps" by (simp add: eps_def)
  have sb: "\<bar>c0 + h\<bar> \<le> 242 / 10" using c0e hb eps by linarith
  define s where "s = double (c0 + h)"
  have "\<bar>s - (c0 + h)\<bar> \<le> (242 / 10) / 2 ^ 53" unfolding s_def by (rule double_error_bound [OF sb])
  then have s1: "\<bar>s - (c0 + h)\<bar> \<le> 242 / 10 * eps" by (simp add: eps_def)
  have se: "\<bar>s - (2385 / 100 + 5029 / 100 * \<tau> / 3600)\<bar> \<le> 51 * eps"
    using s1 c0e he eps by linarith
  define c2 where "c2 = double 0.000279"
  have "\<bar>c2 - 0.000279\<bar> \<le> 0.000279 / 2 ^ 53" unfolding c2_def by (rule double_error_bound) simp
  then have c2e: "\<bar>c2 - 279 / 1000000\<bar> \<le> 279 / 1000000 * eps" by (simp add: eps_def)
  have c2b: "\<bar>c2\<bar> \<le> 28 / 100000" using c2e eps by linarith
  define k where "k = double (c2 * t)"
  have kb0: "\<bar>c2 * t\<bar> \<le> 28 / 100000 * (20001 / 1000)" by (rule abs_mult_le [OF c2b tb])
  have "\<bar>k - c2 * t\<bar> \<le> (28 / 100000 * (20001 / 1000)) / 2 ^ 53"
    unfolding k_def by (rule double_error_bound [OF kb0])
  then have k1: "\<bar>k - c2 * t\<bar> \<le> 1 / 100 * eps" using eps by (simp add: eps_def)
  have "\<bar>c2 * t - 279 / 1000000 * \<tau>\<bar>
      \<le> 279 / 1000000 * eps * (20001 / 1000) + 279 / 1000000 * (41 * eps)"
    by (rule product_error [OF c2e tb _ te]) simp
  then have k2: "\<bar>c2 * t - 279 / 1000000 * \<tau>\<bar> \<le> 2 / 100 * eps" using eps by simp
  have ke: "\<bar>k - 279 / 1000000 * \<tau>\<bar> \<le> 3 / 100 * eps" using k1 k2 eps by linarith
  have k0b: "\<bar>279 / 1000000 * \<tau>\<bar> \<le> 56 / 10000" using \<tau> by simp
  have kb: "\<bar>k\<bar> \<le> 57 / 10000" using ke k0b eps by linarith
  define q where "q = double (k * t)"
  have qb0: "\<bar>k * t\<bar> \<le> 57 / 10000 * (20001 / 1000)" by (rule abs_mult_le [OF kb tb])
  have "\<bar>q - k * t\<bar> \<le> (57 / 10000 * (20001 / 1000)) / 2 ^ 53"
    unfolding q_def by (rule double_error_bound [OF qb0])
  then have q1: "\<bar>q - k * t\<bar> \<le> 12 / 100 * eps" using eps by (simp add: eps_def)
  have "\<bar>k * t - 279 / 1000000 * \<tau> * \<tau>\<bar> \<le> 3 / 100 * eps * (20001 / 1000) + 56 / 10000 * (41 * eps)"
    by (rule product_error [OF ke tb k0b te])
  then have q2: "\<bar>k * t - 279 / 1000000 * \<tau> * \<tau>\<bar> \<le> 84 / 100 * eps" using eps by simp
  have qe: "\<bar>q - 279 / 1000000 * \<tau> * \<tau>\<bar> \<le> eps" using q1 q2 eps by linarith
  have q0b: "\<bar>279 / 1000000 * \<tau> * \<tau>\<bar> \<le> 56 / 10000 * 20"
    by (rule abs_mult_le [OF k0b \<tau>])
  have qb: "\<bar>q\<bar> \<le> 12 / 100" using qe q0b eps by linarith
  have s0b: "\<bar>2385 / 100 + 5029 / 100 * \<tau> / 3600\<bar> \<le> 242 / 10" using \<tau> by simp
  have ab: "\<bar>s - q\<bar> \<le> 244 / 10" using se s0b qb eps by linarith
  define a where "a = double (s - q)"
  have "\<bar>a - (s - q)\<bar> \<le> (244 / 10) / 2 ^ 53" unfolding a_def by (rule double_error_bound [OF ab])
  then have a1: "\<bar>a - (s - q)\<bar> \<le> 244 / 10 * eps" by (simp add: eps_def)
  have "\<bar>a - (2385 / 100 + 5029 / 100 * \<tau> / 3600 - 279 / 1000000 * \<tau> * \<tau>)\<bar> \<le> 80 * eps"
    using a1 se qe eps by linarith
  moreover have "calculate_lahiri_ayanamsa_double jd = a"
    by (simp add: calculate_lahiri_ayanamsa_double_def Let_def a_def s_def q_def k_def c2_def
        c0_def h_def g_def c1_def t_def u_def x_def)
  moreover have "calculate_lahiri_ayanamsa jd
      = 2385 / 100 + 5029 / 100 * \<tau> / 3600 - 279 / 1000000 * \<tau> * \<tau>"
    by (simp add: calculate_lahiri_ayanamsa_def Let_def \<tau>_def x_def)
  ultimately show ?thesis by (simp add: eps_def)
qed

lemma ayanamsa_double_range:
  assumes "\<bar>jd - 2451545\<bar> \<le> 730500"
  shows "23 \<le> calculate_lahiri_ayanamsa_double jd" and "calculate_lahiri_ayanamsa_double jd \<le> 25"
proof -
  define \<tau> where "\<tau> = (jd - 2451545) / 36525"
  have \<tau>: "\<bar>\<tau>\<bar> \<le> 20" using assms by (simp add: \<tau>_def)
  have sq: "\<bar>\<tau> * \<tau>\<bar> \<le> 20 * 20" by (rule abs_mult_le [OF \<tau> \<tau>])
  have poly: "calculate_lahiri_ayanamsa jd
      = 2385 / 100 + 5029 / 100 * \<tau> / 3600 - 279 / 1000000 * (\<tau> * \<tau>)"
    by (simp add: calculate_lahiri_ayanamsa_def Let_def \<tau>_def)
  have e: "\<bar>calculate_lahiri_ayanamsa_double jd - calculate_lahiri_ayanamsa jd\<bar> \<le> 80 / 2 ^ 53"
    by (rule ayanamsa_double_error [OF assms])
  have small: "(80 :: real) / 2 ^ 53 < 1 / 100" by simp
  show "23 \<le> calculate_lahiri_ayanamsa_double jd" using e small \<tau> sq unfolding poly by linarith
  show "calculate_lahiri_ayanamsa_double jd \<le> 25" using e small \<tau> sq unfolding poly by linarith
qed

text \<open>
  C5, amended. In double precision, for Julian Days within 20 Julian centuries of
  J2000.0, \<open>calculate_lahiri_ayanamsa\<close> is strictly increasing across any two Julian Days
  at least one second (1/86400 day) apart.
\<close>

theorem ayanamsa_double_increasing_over_a_second:
  assumes "\<bar>jd1 - 2451545\<bar> \<le> 730500" and "\<bar>jd2 - 2451545\<bar> \<le> 730500"
    and "jd1 + 1 / 86400 \<le> jd2"
  shows "calculate_lahiri_ayanamsa_double jd1 < calculate_lahiri_ayanamsa_double jd2"
proof -
  define t1 where "t1 = (jd1 - 2451545) / 36525"
  define t2 where "t2 = (jd2 - 2451545) / 36525"
  have b: "\<bar>t1\<bar> \<le> 20" "\<bar>t2\<bar> \<le> 20" using assms(1,2) by (simp_all add: t1_def t2_def)
  have step: "1 / (86400 * 36525) \<le> t2 - t1" using assms(3) by (simp add: t1_def t2_def field_simps)
  have "t1 + t2 \<le> 40" using b by linarith
  then have slope: "28 / 10000 \<le> 5029 / 360000 - 279 / 1000000 * (t1 + t2)" by argo
  have "1 / (86400 * 36525) * (28 / 10000) \<le> (t2 - t1) * (5029 / 360000 - 279 / 1000000 * (t1 + t2))"
    using step slope by (intro mult_mono) auto
  also have "\<dots> = (2385 / 100 + 5029 / 100 * t2 / 3600 - 279 / 1000000 * t2 * t2)
      - (2385 / 100 + 5029 / 100 * t1 / 3600 - 279 / 1000000 * t1 * t1)"
    by (simp add: algebra_simps diff_divide_distrib)
  also have "\<dots> = calculate_lahiri_ayanamsa jd2 - calculate_lahiri_ayanamsa jd1"
    by (simp add: calculate_lahiri_ayanamsa_def Let_def t1_def t2_def)
  finally have exact: "1 / (86400 * 36525) * (28 / 10000)
      \<le> calculate_lahiri_ayanamsa jd2 - calculate_lahiri_ayanamsa jd1" .
  have small: "2 * ((80 :: real) / 2 ^ 53) < 1 / (86400 * 36525) * (28 / 10000)" by simp
  show ?thesis
    using exact small ayanamsa_double_error [OF assms(1)] ayanamsa_double_error [OF assms(2)]
    by linarith
qed

text \<open>
  J2000.0 and the day after.
\<close>

theorem ayanamsa_double_increasing_over_a_second_witness:
  "\<bar>(2451545 :: real) - 2451545\<bar> \<le> 730500 \<and> \<bar>(2451546 :: real) - 2451545\<bar> \<le> 730500
   \<and> (2451545 :: real) + 1 / 86400 \<le> 2451546
   \<and> calculate_lahiri_ayanamsa_double 2451545 < calculate_lahiri_ayanamsa_double 2451546"
proof -
  have a: "\<bar>(2451545 :: real) - 2451545\<bar> \<le> 730500"
    and b: "\<bar>(2451546 :: real) - 2451545\<bar> \<le> 730500"
    and c: "(2451545 :: real) + 1 / 86400 \<le> 2451546" by simp_all
  from ayanamsa_double_increasing_over_a_second [OF a b c] a b c show ?thesis by blast
qed

text \<open>
  C5 as stated fails: J2000.0 and the next double after it are two Julian Days of the
  range, the second greater than the first, with the same ayanamsa.
\<close>

theorem ayanamsa_double_not_strictly_increasing:
  "(2451545 :: real) < 2451545 + 1 / 2 ^ 31
   \<and> double 2451545 = 2451545
   \<and> double (2451545 + 1 / 2 ^ 31) = 2451545 + 1 / 2 ^ 31
   \<and> \<not> calculate_lahiri_ayanamsa_double 2451545
        < calculate_lahiri_ayanamsa_double (2451545 + 1 / 2 ^ 31)"
proof -
  have d1: "double 2451545 = 2451545"
  proof -
    have "double 2451545 = 2 powr real_of_int (21 - 52)
        * real_of_int (round_half_even (2451545 / 2 powr real_of_int (21 - 52)))"
      by (rule double_in_binade) simp_all
    also have "\<dots> = 2451545"
      by (simp add: powr_neg_numeral round_half_even_def Let_def)
    finally show ?thesis .
  qed
  have d2: "double (2451545 + 1 / 2 ^ 31) = 2451545 + 1 / 2 ^ 31"
  proof -
    have "double (2451545 + 1 / 2 ^ 31) = 2 powr real_of_int (21 - 52)
        * real_of_int (round_half_even ((2451545 + 1 / 2 ^ 31) / 2 powr real_of_int (21 - 52)))"
      by (rule double_in_binade) simp_all
    also have "\<dots> = 2451545 + 1 / 2 ^ 31"
      by (simp add: powr_neg_numeral round_half_even_def Let_def)
    finally show ?thesis .
  qed
  have "(2451545 :: real) < 2451545 + 1 / 2 ^ 31" by simp
  moreover have "\<not> calculate_lahiri_ayanamsa_double 2451545
        < calculate_lahiri_ayanamsa_double (2451545 + 1 / 2 ^ 31)"
    by (simp only: ayanamsa_double_j2000 ayanamsa_double_next_jd less_irrefl not_False_eq_True)
  ultimately show ?thesis using d1 d2 by blast
qed

section \<open>The house cusps in double precision\<close>

lemma equal_houses_double_apply:
  "equal_houses_double a ks h n = (if n \<in> set ks then Some (double_cusp a n) else h n)"
  by (induction ks arbitrary: h) (auto simp: double_cusp_def)

lemma intermediate_houses_double_apply:
  "intermediate_houses_double a ks h n = (if n \<in> set ks then Some (double_cusp a n) else h n)"
  by (induction ks arbitrary: h) (auto simp: double_cusp_def)

lemma complete_wheel_double_quadrant:
  "complete_wheel_double [8..12]
      (intermediate_houses_double a [2..6]
         [1 \<mapsto> a, 4 \<mapsto> ic, 7 \<mapsto> dsc, 10 \<mapsto> mc])
   = Inr ((intermediate_houses_double a [2..6] [1 \<mapsto> a, 4 \<mapsto> ic, 7 \<mapsto> dsc, 10 \<mapsto> mc])
        (8 \<mapsto> opposite_double (double_cusp a 2),
         9 \<mapsto> opposite_double (double_cusp a 3),
         10 \<mapsto> opposite_double (double_cusp a 4),
         11 \<mapsto> opposite_double (double_cusp a 5),
         12 \<mapsto> opposite_double (double_cusp a 6)))"
  by (simp add: upto_8_12 intermediate_houses_double_apply opposite_double_def double_cusp_def)

lemma calculate_houses_double_equal:
  "calculate_houses_double lib jd latitude longitude ''Equal''
     = Inr (equal_houses_double (houses_ascendant_double lib jd latitude longitude) [1..12] Map.empty,
            houses_ascendant_double lib jd latitude longitude)"
  by (simp add: calculate_houses_double_def Let_def)

lemma calculate_houses_double_quadrant:
  assumes "house_system \<noteq> ''Whole Sign''" and "house_system \<noteq> ''Equal''"
  shows "calculate_houses_double lib jd latitude longitude house_system
     = Inr ((intermediate_houses_double (houses_ascendant_double lib jd latitude longitude) [2..6]
              [1 \<mapsto> houses_ascendant_double lib jd latitude longitude,
               4 \<mapsto> float_mod (double (houses_mc_double jd longitude + 180)) 360,
               7 \<mapsto> float_mod (double (houses_ascendant_double lib jd latitude longitude + 180)) 360,
               10 \<mapsto> houses_mc_double jd longitude])
            (8 \<mapsto> opposite_double (double_cusp (houses_ascendant_double lib jd latitude longitude) 2),
             9 \<mapsto> opposite_double (double_cusp (houses_ascendant_double lib jd latitude longitude) 3),
             10 \<mapsto> opposite_double (double_cusp (houses_ascendant_double lib jd latitude longitude) 4),
             11 \<mapsto> opposite_double (double_cusp (houses_ascendant_double lib jd latitude longitude) 5),
             12 \<mapsto> opposite_double (double_cusp (houses_ascendant_double lib jd latitude longitude) 6)),
            houses_ascendant_double lib jd latitude longitude)"
  by (simp only: calculate_houses_double_def Let_def assms if_False complete_wheel_double_quadrant
      sum.case)

text \<open>
  The Ascendant at J2000.0, latitude 0 and longitude 2, operation by operation.
\<close>

lemma ascendant_double_observed:
  "houses_ascendant_double libm_observed 2451545 0 2 = ascendant_observed"
proof -
  define gst_v :: real where "gst_v = 1233478844124249 / 2 ^ 42"
  define lst_v :: real where "lst_v = 1242274937146457 / 2 ^ 42"
  define obl_v :: real where "obl_v = 3298786958243393 / 2 ^ 47"
  define deg_to_rad :: real where "deg_to_rad = 5030569068109113 / 2 ^ 58"
  define rad_to_deg :: real where "rad_to_deg = 1007958012753983 / 2 ^ 44"
  define lst_rad :: real where "lst_rad = 5550537694262089 / 2 ^ 50"
  define obl_rad :: real where "obl_rad = 1842390199782269 / 2 ^ 52"
  define sin_lst :: real where "sin_lst = -4397515284061613 / 2 ^ 52"
  define cos_lst :: real where "cos_lst = 7773880081796709 / 2 ^ 55"
  define cos_obl :: real where "cos_obl = 8263943746402571 / 2 ^ 53"
  define sin_obl :: real where "sin_obl = 3582858100860335 / 2 ^ 53"
  define x_v :: real where "x_v = 8069282782281627 / 2 ^ 53"
  define atan_v :: real where "atan_v = 8515282652086415 / 2 ^ 55"
  have z: "double ((2451545 :: real) - 2451545.0) = 0" by (simp add: double_zero)
  have t0: "double (0 / 36525) = 0" by (simp add: double_zero)
  have m0: "double (double 360.98564736629 * 0) = 0" by (simp add: double_zero)
  have o1: "double (double 0.0130125 * 0) = 0" by (simp add: double_zero)
  have o2: "double (double 0.00000164 * 0) = 0" by (simp add: double_zero)
  have o3: "double (0 * 0) = 0" by (simp add: double_zero)
  have g0: "double (280.46061837) = gst_v"
  proof -
    have "double (280.46061837) = 2 powr real_of_int (8 - 52)
        * real_of_int (round_half_even ((280.46061837) / 2 powr real_of_int (8 - 52)))"
      by (rule double_in_binade) (simp_all add: powr_neg_numeral gst_v_def)
    also have "\<dots> = gst_v"
      by (simp add: powr_neg_numeral round_half_even_def Let_def gst_v_def)
    finally show ?thesis .
  qed
  have g1: "double (gst_v + 0) = gst_v"
  proof -
    have "double (gst_v + 0) = 2 powr real_of_int (8 - 52)
        * real_of_int (round_half_even ((gst_v + 0) / 2 powr real_of_int (8 - 52)))"
      by (rule double_in_binade) (simp_all add: powr_neg_numeral gst_v_def)
    also have "\<dots> = gst_v"
      by (simp add: powr_neg_numeral round_half_even_def Let_def gst_v_def)
    finally show ?thesis .
  qed
  have l0: "double (gst_v + 2) = lst_v"
  proof -
    have "double (gst_v + 2) = 2 powr real_of_int (8 - 52)
        * real_of_int (round_half_even ((gst_v + 2) / 2 powr real_of_int (8 - 52)))"
      by (rule double_in_binade) (simp_all add: powr_neg_numeral gst_v_def lst_v_def)
    also have "\<dots> = lst_v"
      by (simp add: powr_neg_numeral round_half_even_def Let_def gst_v_def lst_v_def)
    finally show ?thesis .
  qed
  have l1: "float_mod lst_v 360 = lst_v"
    by (rule float_mod_small_nonneg) (simp_all add: lst_v_def)
  have lst: "local_sidereal_time_double 2451545 2 = lst_v"
    unfolding local_sidereal_time_double_def Let_def z m0 g0 g1 l0 l1 ..
  have ob0: "double (23.4392911) = obl_v"
  proof -
    have "double (23.4392911) = 2 powr real_of_int (4 - 52)
        * real_of_int (round_half_even ((23.4392911) / 2 powr real_of_int (4 - 52)))"
      by (rule double_in_binade) (simp_all add: powr_neg_numeral obl_v_def)
    also have "\<dots> = obl_v"
      by (simp add: powr_neg_numeral round_half_even_def Let_def obl_v_def)
    finally show ?thesis .
  qed
  have ob1: "double (obl_v - 0) = obl_v"
  proof -
    have "double (obl_v - 0) = 2 powr real_of_int (4 - 52)
        * real_of_int (round_half_even ((obl_v - 0) / 2 powr real_of_int (4 - 52)))"
      by (rule double_in_binade) (simp_all add: powr_neg_numeral obl_v_def)
    also have "\<dots> = obl_v"
      by (simp add: powr_neg_numeral round_half_even_def Let_def obl_v_def)
    finally show ?thesis .
  qed
  have dr: "double (pi_double / 180) = deg_to_rad"
  proof -
    have "double (pi_double / 180) = 2 powr real_of_int (- 6 - 52)
        * real_of_int (round_half_even ((pi_double / 180) / 2 powr real_of_int (- 6 - 52)))"
      by (rule double_in_binade) (simp_all add: powr_neg_numeral deg_to_rad_def pi_double_def)
    also have "\<dots> = deg_to_rad"
      by (simp add: powr_neg_numeral round_half_even_def Let_def deg_to_rad_def pi_double_def)
    finally show ?thesis .
  qed
  have rd: "double (180 / pi_double) = rad_to_deg"
  proof -
    have "double (180 / pi_double) = 2 powr real_of_int (5 - 52)
        * real_of_int (round_half_even ((180 / pi_double) / 2 powr real_of_int (5 - 52)))"
      by (rule double_in_binade) (simp_all add: powr_neg_numeral rad_to_deg_def pi_double_def)
    also have "\<dots> = rad_to_deg"
      by (simp add: powr_neg_numeral round_half_even_def Let_def rad_to_deg_def pi_double_def)
    finally show ?thesis .
  qed
  have lat: "double (0 * deg_to_rad) = 0" by (simp add: double_zero)
  have lr: "double (lst_v * deg_to_rad) = lst_rad"
  proof -
    have "double (lst_v * deg_to_rad) = 2 powr real_of_int (2 - 52)
        * real_of_int (round_half_even ((lst_v * deg_to_rad) / 2 powr real_of_int (2 - 52)))"
      by (rule double_in_binade) (simp_all add: powr_neg_numeral lst_v_def deg_to_rad_def lst_rad_def)
    also have "\<dots> = lst_rad"
      by (simp add: powr_neg_numeral round_half_even_def Let_def lst_v_def deg_to_rad_def lst_rad_def)
    finally show ?thesis .
  qed
  have orr: "double (obl_v * deg_to_rad) = obl_rad"
  proof -
    have "double (obl_v * deg_to_rad) = 2 powr real_of_int (- 2 - 52)
        * real_of_int (round_half_even ((obl_v * deg_to_rad) / 2 powr real_of_int (- 2 - 52)))"
      by (rule double_in_binade) (simp_all add: powr_neg_numeral obl_v_def deg_to_rad_def obl_rad_def)
    also have "\<dots> = obl_rad"
      by (simp add: powr_neg_numeral round_half_even_def Let_def obl_v_def deg_to_rad_def obl_rad_def)
    finally show ?thesis .
  qed
  have s1: "m_sin libm_observed lst_rad = sin_lst" by (simp add: libm_observed_def lst_rad_def sin_lst_def)
  have c1: "m_cos libm_observed lst_rad = cos_lst" by (simp add: libm_observed_def lst_rad_def cos_lst_def)
  have c2: "m_cos libm_observed obl_rad = cos_obl" by (simp add: libm_observed_def obl_rad_def cos_obl_def)
  have s2: "m_sin libm_observed obl_rad = sin_obl" by (simp add: libm_observed_def obl_rad_def sin_obl_def)
  have tn: "m_tan libm_observed 0 = 0" by (simp add: libm_observed_def)
  have p1: "double (- sin_lst * cos_obl) = x_v"
  proof -
    have "double (- sin_lst * cos_obl) = 2 powr real_of_int (- 1 - 52)
        * real_of_int (round_half_even ((- sin_lst * cos_obl) / 2 powr real_of_int (- 1 - 52)))"
      by (rule double_in_binade) (simp_all add: powr_neg_numeral sin_lst_def cos_obl_def x_v_def)
    also have "\<dots> = x_v"
      by (simp add: powr_neg_numeral round_half_even_def Let_def sin_lst_def cos_obl_def x_v_def)
    finally show ?thesis .
  qed
  have p2: "double (0 * sin_obl) = 0" by (simp add: double_zero)
  have x0: "double (x_v - 0) = x_v"
  proof -
    have "double (x_v - 0) = 2 powr real_of_int (- 1 - 52)
        * real_of_int (round_half_even ((x_v - 0) / 2 powr real_of_int (- 1 - 52)))"
      by (rule double_in_binade) (simp_all add: powr_neg_numeral x_v_def)
    also have "\<dots> = x_v"
      by (simp add: powr_neg_numeral round_half_even_def Let_def x_v_def)
    finally show ?thesis .
  qed
  have at: "m_atan2 libm_observed cos_lst x_v = atan_v" by (simp add: libm_observed_def atan_v_def cos_lst_def x_v_def)
  have dg: "double (atan_v * rad_to_deg) = ascendant_observed"
  proof -
    have "double (atan_v * rad_to_deg) = 2 powr real_of_int (3 - 52)
        * real_of_int (round_half_even ((atan_v * rad_to_deg) / 2 powr real_of_int (3 - 52)))"
      by (rule double_in_binade) (simp_all add: powr_neg_numeral atan_v_def rad_to_deg_def ascendant_observed_def)
    also have "\<dots> = ascendant_observed"
      by (simp add: powr_neg_numeral round_half_even_def Let_def atan_v_def rad_to_deg_def ascendant_observed_def)
    finally show ?thesis .
  qed
  have fm: "float_mod ascendant_observed 360 = ascendant_observed"
    by (rule float_mod_small_nonneg) (simp_all add: ascendant_observed_def)
  show ?thesis
    unfolding houses_ascendant_double_def Let_def lst radians_double_def degrees_double_def
      z t0 o1 o2 o3 ob0 ob1 dr rd lat lr orr s1 c1 c2 s2 tn p1 p2 x0 at dg fm ..
qed

lemma cusp_12_quadrant_observed:
  "opposite_double (double_cusp ascendant_observed 6) = cusp_12_quadrant"
proof -
  define cusp_6 :: real where "cusp_6 = 5754110654463001 / 2 ^ 45"
  have k: "real_of_int ((6 - 1) * 30) = 150" by simp
  have h0: "double (ascendant_observed + 150) = cusp_6"
  proof -
    have "double (ascendant_observed + 150) = 2 powr real_of_int (7 - 52)
        * real_of_int (round_half_even ((ascendant_observed + 150) / 2 powr real_of_int (7 - 52)))"
      by (rule double_in_binade) (simp_all add: powr_neg_numeral ascendant_observed_def cusp_6_def)
    also have "\<dots> = cusp_6"
      by (simp add: powr_neg_numeral round_half_even_def Let_def ascendant_observed_def cusp_6_def)
    finally show ?thesis .
  qed
  have h1: "float_mod cusp_6 360 = cusp_6"
    by (rule float_mod_small_nonneg) (simp_all add: cusp_6_def)
  have q0: "double (cusp_6 + 180) = cusp_12_quadrant"
  proof -
    have "double (cusp_6 + 180) = 2 powr real_of_int (8 - 52)
        * real_of_int (round_half_even ((cusp_6 + 180) / 2 powr real_of_int (8 - 52)))"
      by (rule double_in_binade) (simp_all add: powr_neg_numeral cusp_6_def cusp_12_quadrant_def)
    also have "\<dots> = cusp_12_quadrant"
      by (simp add: powr_neg_numeral round_half_even_def Let_def cusp_6_def cusp_12_quadrant_def)
    finally show ?thesis .
  qed
  have q1: "float_mod cusp_12_quadrant 360 = cusp_12_quadrant"
    by (rule float_mod_small_nonneg) (simp_all add: cusp_12_quadrant_def)
  show ?thesis
    unfolding opposite_double_def double_cusp_def k h0 h1 q0 q1 ..
qed

lemma cusp_12_equal_observed: "double_cusp ascendant_observed 12 = cusp_12_equal"
proof -
  have k: "real_of_int ((12 - 1) * 30) = 330" by simp
  have e0: "double (ascendant_observed + 330) = cusp_12_equal"
  proof -
    have "double (ascendant_observed + 330) = 2 powr real_of_int (8 - 52)
        * real_of_int (round_half_even ((ascendant_observed + 330) / 2 powr real_of_int (8 - 52)))"
      by (rule double_in_binade) (simp_all add: powr_neg_numeral ascendant_observed_def cusp_12_equal_def)
    also have "\<dots> = cusp_12_equal"
      by (simp add: powr_neg_numeral round_half_even_def Let_def ascendant_observed_def cusp_12_equal_def)
    finally show ?thesis .
  qed
  have e1: "float_mod cusp_12_equal 360 = cusp_12_equal"
    by (rule float_mod_small_nonneg) (simp_all add: cusp_12_equal_def)
  show ?thesis
    unfolding double_cusp_def k e0 e1 ..
qed

text \<open>
  Rounding keeps the sign, and a remainder modulo 360 lies in [0, 360]; the bound 361
  below leaves room for the one rounding of its last sum.
\<close>

lemma double_nonneg:
  assumes "0 \<le> x"
  shows "0 \<le> double x"
proof -
  have "\<bar>x\<bar> / 2 ^ 53 \<le> \<bar>x\<bar>" by (simp add: divide_le_eq)
  with double_error [of x] assms show ?thesis by linarith
qed

lemma float_mod_nonneg:
  assumes "0 \<le> x"
  shows "\<exists>j :: int. float_mod x 360 = x - 360 * real_of_int j
           \<and> 0 \<le> float_mod x 360 \<and> float_mod x 360 < 360"
proof -
  define j where "j = \<lfloor>x / 360\<rfloor>"
  have p: "py_int (x / 360) = j" using assms by (simp add: py_int_def j_def)
  have "real_of_int j \<le> x / 360" and "x / 360 < real_of_int j + 1"
    unfolding j_def by linarith+
  then have r: "0 \<le> x - 360 * real_of_int j" "x - 360 * real_of_int j < 360" by linarith+
  then have "float_mod x 360 = x - 360 * real_of_int j"
    by (simp add: float_mod_def Let_def p)
  with r show ?thesis by auto
qed

lemma float_mod_range: "0 \<le> float_mod x 360 \<and> float_mod x 360 \<le> 361"
proof (cases "0 \<le> x")
  case True
  from float_mod_nonneg [OF True] show ?thesis by auto
next
  case False
  define j where "j = \<lceil>x / 360\<rceil>"
  define r where "r = x - 360 * real_of_int j"
  have p: "py_int (x / 360) = j" using False by (simp add: py_int_def j_def)
  have "x / 360 \<le> real_of_int j" and "real_of_int j < x / 360 + 1"
    unfolding j_def by linarith+
  then have r: "- 360 < r" "r \<le> 0" unfolding r_def by linarith+
  have f: "float_mod x 360 = (if r \<noteq> 0 then double (r + 360) else r)"
    using r by (simp add: float_mod_def Let_def p r_def [symmetric])
  show ?thesis
  proof (cases "r = 0")
    case True
    then show ?thesis using f by simp
  next
    case False
    define E :: real where "E = 360 / 2 ^ 53"
    have E: "E \<le> 1" by (simp add: E_def)
    have "\<bar>double (r + 360) - (r + 360)\<bar> \<le> E"
      unfolding E_def by (rule double_error_bound) (use r in linarith)
    then have "double (r + 360) \<le> 361" using r E by linarith
    moreover have "0 \<le> double (r + 360)" by (rule double_nonneg) (use r in linarith)
    ultimately show ?thesis using f False by simp
  qed
qed

lemma near_modulo_360:
  fixes q e d :: real and z :: int
  assumes "0 \<le> q" "q \<le> 361" "0 \<le> e" "e < 360" "\<bar>q - e - 360 * real_of_int z\<bar> \<le> d" "d \<le> 1"
  shows "\<exists>z\<in>{- 1, 0, 1 :: int}. \<bar>q - e - 360 * real_of_int z\<bar> \<le> d"
proof -
  have "- 2 < z" "z < 2" using assms by linarith+
  then have "z \<in> {- 1, 0, 1}" by auto
  with assms(5) show ?thesis by blast
qed

text \<open>
  The opposite of the cusp \<open>k\<close> degrees after the Ascendant and the cusp \<open>k + 180\<close> degrees
  after it differ, modulo 360, by three roundings: of a number below 511, of one below 540
  and of one below 691.
\<close>

lemma opposite_cusp_error:
  assumes a: "0 \<le> a" "a \<le> 361" and k: "30 \<le> k" "k \<le> 150"
  shows "\<exists>z\<in>{- 1, 0, 1 :: int}.
           \<bar>float_mod (double (float_mod (double (a + k)) 360 + 180)) 360
              - float_mod (double (a + (k + 180))) 360 - 360 * real_of_int z\<bar>
             \<le> 1742 / 2 ^ 53"
proof -
  define E :: real where "E = 1 / 2 ^ 53"
  have E: "0 < E" "E \<le> 1 / 1000000" by (simp_all add: E_def)
  define d1 where "d1 = double (a + k)"
  have d1: "\<bar>d1 - (a + k)\<bar> \<le> 511 * E"
    using double_error_bound [of "a + k" 511] a k by (simp add: d1_def E_def)
  have "0 \<le> d1" unfolding d1_def by (rule double_nonneg) (use a k in linarith)
  from float_mod_nonneg [OF this] obtain j1 :: int
    where c: "float_mod d1 360 = d1 - 360 * real_of_int j1"
      and cr: "0 \<le> float_mod d1 360" "float_mod d1 360 < 360" by blast
  define c where "c = float_mod d1 360"
  define d2 where "d2 = double (c + 180)"
  have d2: "\<bar>d2 - (c + 180)\<bar> \<le> 540 * E"
    using double_error_bound [of "c + 180" 540] cr by (simp add: d2_def E_def c_def)
  have "0 \<le> d2" unfolding d2_def by (rule double_nonneg) (use cr c_def in linarith)
  from float_mod_nonneg [OF this] obtain j2 :: int
    where q: "float_mod d2 360 = d2 - 360 * real_of_int j2"
      and qr: "0 \<le> float_mod d2 360" "float_mod d2 360 < 360" by blast
  define d3 where "d3 = double (a + (k + 180))"
  have d3: "\<bar>d3 - (a + (k + 180))\<bar> \<le> 691 * E"
    using double_error_bound [of "a + (k + 180)" 691] a k by (simp add: d3_def E_def)
  have "0 \<le> d3" unfolding d3_def by (rule double_nonneg) (use a k in linarith)
  from float_mod_nonneg [OF this] obtain j3 :: int
    where e: "float_mod d3 360 = d3 - 360 * real_of_int j3"
      and er: "0 \<le> float_mod d3 360" "float_mod d3 360 < 360" by blast
  have "float_mod d2 360 - float_mod d3 360 - 360 * real_of_int (j3 - j1 - j2)
          = (d2 - (c + 180)) + (d1 - (a + k)) - (d3 - (a + (k + 180)))"
    using c q e by (simp add: c_def)
  then have b: "\<bar>float_mod d2 360 - float_mod d3 360 - 360 * real_of_int (j3 - j1 - j2)\<bar>
          \<le> 1742 * E"
    using d1 d2 d3 by linarith
  have "\<exists>z\<in>{- 1, 0, 1 :: int}.
      \<bar>float_mod d2 360 - float_mod d3 360 - 360 * real_of_int z\<bar> \<le> 1742 * E"
    by (rule near_modulo_360 [where z = "j3 - j1 - j2"]) (use qr er b E in linarith)+
  then show ?thesis by (simp add: d2_def c_def d1_def d3_def E_def)
qed

lemma first_cusp_error:
  assumes a: "0 \<le> a" "a \<le> 361"
  shows "\<exists>z\<in>{- 1, 0, 1 :: int}.
           \<bar>a - float_mod (double (a + 0)) 360 - 360 * real_of_int z\<bar> \<le> 1742 / 2 ^ 53"
proof -
  define E :: real where "E = 1 / 2 ^ 53"
  have E: "0 < E" "E \<le> 1 / 1000000" by (simp_all add: E_def)
  define d where "d = double (a + 0)"
  have d: "\<bar>d - a\<bar> \<le> 361 * E"
    using double_error_bound [of a 361] a by (simp add: d_def E_def)
  have "0 \<le> d" unfolding d_def by (rule double_nonneg) (use a in linarith)
  from float_mod_nonneg [OF this] obtain j :: int
    where e: "float_mod d 360 = d - 360 * real_of_int j"
      and er: "0 \<le> float_mod d 360" "float_mod d 360 < 360" by blast
  have "a - float_mod d 360 - 360 * real_of_int j = - (d - a)"
    using e by simp
  then have b: "\<bar>a - float_mod d 360 - 360 * real_of_int j\<bar> \<le> 1742 * E"
    using d E by linarith
  have "\<exists>z\<in>{- 1, 0, 1 :: int}. \<bar>a - float_mod d 360 - 360 * real_of_int z\<bar> \<le> 1742 * E"
    by (rule near_modulo_360 [where z = j]) (use a er b E in linarith)+
  then show ?thesis by (simp add: d_def E_def)
qed

lemma houses_ascendant_double_range:
  "0 \<le> houses_ascendant_double lib jd latitude longitude"
  "houses_ascendant_double lib jd latitude longitude \<le> 361"
  by (simp_all add: houses_ascendant_double_def Let_def float_mod_range)

lemma first_double_cusp_error:
  assumes "0 \<le> a" and "a \<le> 361"
  shows "\<exists>z\<in>{- 1, 0, 1 :: int}. \<bar>a - double_cusp a 1 - 360 * real_of_int z\<bar> \<le> 1742 / 2 ^ 53"
  using first_cusp_error [OF assms] by (simp add: double_cusp_def)

lemma opposite_double_cusp_error:
  assumes a: "0 \<le> a" "a \<le> 361" and n: "8 \<le> n" "n \<le> 12"
  shows "\<exists>z\<in>{- 1, 0, 1 :: int}.
           \<bar>opposite_double (double_cusp a (n - 6)) - double_cusp a n - 360 * real_of_int z\<bar>
             \<le> 1742 / 2 ^ 53"
proof -
  define k where "k = real_of_int ((n - 7) * 30)"
  have k: "30 \<le> k" "k \<le> 150" using n by (simp_all add: k_def)
  have k6: "real_of_int ((n - 6 - 1) * 30) = k" by (simp add: k_def)
  have k0: "real_of_int ((n - 1) * 30) = k + 180" by (simp add: k_def)
  show ?thesis
    unfolding opposite_double_def double_cusp_def k6 k0
    by (rule opposite_cusp_error [OF a k])
qed

lemma quadrant_double_cusps:
  "((intermediate_houses_double a [2..6]
        [1 \<mapsto> a, 4 \<mapsto> ic, 7 \<mapsto> float_mod (double (a + 180)) 360, 10 \<mapsto> mc])
      (8 \<mapsto> opposite_double (double_cusp a 2),
       9 \<mapsto> opposite_double (double_cusp a 3),
       10 \<mapsto> opposite_double (double_cusp a 4),
       11 \<mapsto> opposite_double (double_cusp a 5),
       12 \<mapsto> opposite_double (double_cusp a 6))) n
     = (if n = 1 then Some a
        else if 2 \<le> n \<and> n \<le> 7 then Some (double_cusp a n)
        else if 8 \<le> n \<and> n \<le> 12 then Some (opposite_double (double_cusp a (n - 6)))
        else None)"
proof (cases "1 \<le> n \<and> n \<le> 12")
  case False
  then show ?thesis by (auto simp: intermediate_houses_double_apply)
next
  case True
  then have "n \<in> {1, 2, 3, 4, 5, 6, 7, 8, 9, 10, 11, 12}"
    by (simp only: insert_iff empty_iff) arith
  then show ?thesis
    by (auto simp: intermediate_houses_double_apply double_cusp_def)
qed

text \<open>
  C10, amended. In double precision, for every C library, Julian Day, latitude and
  longitude, \<open>calculate_houses\<close> with a house system other than Whole Sign and Equal raises
  no \<open>KeyError\<close> and returns the Ascendant it returns with Equal. With Equal the cusp of
  house n is \<open>(Ascendant + 30 * (n - 1)) % 360\<close>. The cusps of houses 2 to 7 are the same
  doubles in both. Each of the twelve cusps agrees with the Equal one modulo 360 up to
  \<open>1742 / 2 ^ 53\<close>, about 1.9e-13 degrees, and not more closely in general: house 1 is the
  Ascendant itself, not reduced, and houses 8 to 12 are the opposites of houses 2 to 6,
  which takes one more rounding.
\<close>

theorem quadrant_houses_double_near_equal_houses:
  assumes "house_system \<noteq> ''Whole Sign''" and "house_system \<noteq> ''Equal''"
  shows "\<exists>quadrant equal.
      calculate_houses_double lib jd latitude longitude house_system
        = Inr (quadrant, houses_ascendant_double lib jd latitude longitude)
    \<and> calculate_houses_double lib jd latitude longitude ''Equal''
        = Inr (equal, houses_ascendant_double lib jd latitude longitude)
    \<and> (\<forall>n\<in>{1..12}.
          equal n = Some (double_cusp (houses_ascendant_double lib jd latitude longitude) n))
    \<and> (\<forall>n\<in>{2..7}. quadrant n = equal n)
    \<and> (\<forall>n\<in>{1..12}. \<exists>q e. quadrant n = Some q \<and> equal n = Some e
          \<and> (\<exists>z\<in>{- 1, 0, 1 :: int}. \<bar>q - e - 360 * real_of_int z\<bar> \<le> 1742 / 2 ^ 53))"
proof -
  define a where "a = houses_ascendant_double lib jd latitude longitude"
  define equal where "equal = equal_houses_double a [1..12] Map.empty"
  obtain quadrant where
    q: "calculate_houses_double lib jd latitude longitude house_system = Inr (quadrant, a)"
    and qn: "\<And>n. quadrant n
       = (if n = 1 then Some a
          else if 2 \<le> n \<and> n \<le> 7 then Some (double_cusp a n)
          else if 8 \<le> n \<and> n \<le> 12 then Some (opposite_double (double_cusp a (n - 6)))
          else None)"
    using calculate_houses_double_quadrant [OF assms, of lib jd latitude longitude]
      quadrant_double_cusps [of a]
    unfolding a_def [symmetric] by blast
  have e: "calculate_houses_double lib jd latitude longitude ''Equal'' = Inr (equal, a)"
    unfolding equal_def a_def by (rule calculate_houses_double_equal)
  have en: "equal n = Some (double_cusp a n)" if "n \<in> {1..12}" for n
    using that by (simp add: equal_def equal_houses_double_apply)
  have same: "quadrant n = equal n" if "n \<in> {2..7}" for n
    using that by (simp add: qn en)
  have ar: "0 \<le> a" "a \<le> 361"
    unfolding a_def by (rule houses_ascendant_double_range)+
  have near: "\<exists>q e. quadrant n = Some q \<and> equal n = Some e
          \<and> (\<exists>z\<in>{- 1, 0, 1 :: int}. \<bar>q - e - 360 * real_of_int z\<bar> \<le> 1742 / 2 ^ 53)"
    if n: "n \<in> {1..12}" for n
  proof -
    consider "n = 1" | "2 \<le> n \<and> n \<le> 7" | "8 \<le> n \<and> n \<le> 12" using n by fastforce
    then show ?thesis
    proof cases
      case 1
      then show ?thesis using first_double_cusp_error [OF ar] by (simp add: qn en)
    next
      case 2
      then have "quadrant n = Some (double_cusp a n)" "equal n = Some (double_cusp a n)"
        by (simp_all add: qn en)
      then show ?thesis by simp
    next
      case 3
      then have "quadrant n = Some (opposite_double (double_cusp a (n - 6)))"
        and "equal n = Some (double_cusp a n)"
        by (simp_all add: qn en)
      then show ?thesis using opposite_double_cusp_error [OF ar, of n] 3 by simp
    qed
  qed
  from q e en same near show ?thesis unfolding a_def by blast
qed

text \<open>
  Placidus is such a house system; the input is J2000.0, latitude 0 and longitude 2.
\<close>

theorem quadrant_houses_double_near_equal_houses_witness:
  "''Placidus'' \<noteq> ''Whole Sign'' \<and> ''Placidus'' \<noteq> ''Equal''
   \<and> (\<exists>quadrant equal.
        calculate_houses_double libm_observed 2451545 0 2 ''Placidus''
          = Inr (quadrant, ascendant_observed)
      \<and> calculate_houses_double libm_observed 2451545 0 2 ''Equal''
          = Inr (equal, ascendant_observed)
      \<and> quadrant 6 = equal 6
      \<and> (\<exists>q e. quadrant 12 = Some q \<and> equal 12 = Some e
          \<and> (\<exists>z\<in>{- 1, 0, 1 :: int}. \<bar>q - e - 360 * real_of_int z\<bar> \<le> 1742 / 2 ^ 53)))"
proof -
  have a: "''Placidus'' \<noteq> ''Whole Sign''" and b: "''Placidus'' \<noteq> ''Equal''" by simp_all
  have m: "(6 :: int) \<in> {2..7}" "(12 :: int) \<in> {1..12}" by simp_all
  from quadrant_houses_double_near_equal_houses [OF a b, of libm_observed 2451545 0 2]
  obtain quadrant equal where
      "calculate_houses_double libm_observed 2451545 0 2 ''Placidus''
          = Inr (quadrant, houses_ascendant_double libm_observed 2451545 0 2)"
      "calculate_houses_double libm_observed 2451545 0 2 ''Equal''
          = Inr (equal, houses_ascendant_double libm_observed 2451545 0 2)"
      "\<forall>n\<in>{2..7}. quadrant n = equal n"
      "\<forall>n\<in>{1..12}. \<exists>q e. quadrant n = Some q \<and> equal n = Some e
          \<and> (\<exists>z\<in>{- 1, 0, 1 :: int}. \<bar>q - e - 360 * real_of_int z\<bar> \<le> 1742 / 2 ^ 53)"
    by blast
  then show ?thesis
    unfolding ascendant_double_observed using a b m by blast
qed

text \<open>
  C10 as stated fails: at J2000.0, latitude 0 and longitude 2 the Ascendant is
  13.54166105153926. The quadrant branch makes house 12 from house 6,
  \<open>(163.54166105153925 + 180) % 360 = 343.5416610515392\<close>, the Equal branch from the
  Ascendant, \<open>(13.54166105153926 + 330) % 360 = 343.5416610515393\<close>.
\<close>

theorem quadrant_house_12_differs_from_equal:
  "(case calculate_houses_double libm_observed 2451545 0 2 ''Placidus'' of
      Inl e \<Rightarrow> False
    | Inr (quadrant, ascendant) \<Rightarrow>
        (case calculate_houses_double libm_observed 2451545 0 2 ''Equal'' of
           Inl e \<Rightarrow> False
         | Inr (equal, ascendant') \<Rightarrow>
             ascendant = ascendant_observed \<and> ascendant' = ascendant_observed
           \<and> quadrant 12 = Some cusp_12_quadrant
           \<and> equal 12 = Some cusp_12_equal
           \<and> quadrant 12 \<noteq> equal 12))"
proof -
  have a: "''Placidus'' \<noteq> ''Whole Sign''" and b: "''Placidus'' \<noteq> ''Equal''" by simp_all
  have ne: "cusp_12_quadrant \<noteq> cusp_12_equal"
    by (simp add: cusp_12_quadrant_def cusp_12_equal_def)
  have e: "equal_houses_double ascendant_observed [1..12] Map.empty 12 = Some cusp_12_equal"
    by (simp add: equal_houses_double_apply cusp_12_equal_observed)
  show ?thesis
    unfolding calculate_houses_double_quadrant [OF a b] calculate_houses_double_equal
      ascendant_double_observed
    using ne e by (simp add: cusp_12_quadrant_observed)
qed

end
